theory Spec2Isabelle
  imports Main "HOL-Library.AList" "HOL-Library.Word"
begin

section \<open>Data model\<close>

text \<open>
  \<^verbatim>\<open>flux.ResourceID\<close> is a comparable value used as a map key; it is kept in its
  canonical string form \<^verbatim>\<open><namespace>:<kind>/<name>\<close>.
\<close>

type_synonym ResourceID = string

text \<open>
  A Go \<^verbatim>\<open>error\<close> value. \<open>MultipleResourceFiles id paths\<close> is the value built by
  \<^verbatim>\<open>fmt.Errorf("multiple resource files found for service %s: %s", id, strings.Join(paths, ", "))\<close>;
  \<open>Failure msg\<close> is any error handed back by the operating system or by a collaborator
  (manifests, cluster, parsers, service); \<open>Wrapf err format args\<close> is
  \<^verbatim>\<open>errors.Wrapf(err, format, args...)\<close>, with the format and its arguments kept as they
  are given.
\<close>

datatype error =
    MultipleResourceFiles ResourceID "string list"
  | Failure string
  | Wrapf error string "string list"

text \<open>\<^verbatim>\<open>cluster.Controller\<close>: the snapshot of a running workload; only \<open>ID\<close> is read here.\<close>

record Controller =
  ID :: ResourceID
  Containers :: "(string \<times> string) list"

text \<open>\<^verbatim>\<open>update.ContainerUpdate\<close>: container name, current image, target image.\<close>

record ContainerUpdate =
  Container :: string
  Current :: string
  Target :: string

text \<open>\<^verbatim>\<open>update.ControllerUpdate\<close>, with the fields that \<^verbatim>\<open>release/context.go\<close> sets and reads.\<close>

record ControllerUpdate =
  ResourceID :: ResourceID
  Controller :: Controller
  ManifestPath :: string
  ManifestBytes :: string
  Updates :: "ContainerUpdate list"

text \<open>
  \<^verbatim>\<open>update.ControllerResult\<close>. The status is a Go string type, so the empty string is one of
  its values (line 104 of \<^verbatim>\<open>context.go\<close> tests for it).
\<close>

record ControllerResult =
  Status :: string
  Error :: string
  PerContainer :: "ContainerUpdate list"

text \<open>\<^verbatim>\<open>update.Result\<close> is \<^verbatim>\<open>map[flux.ResourceID]ControllerResult\<close>; it is never iterated here.\<close>

type_synonym Result = "ResourceID \<rightharpoonup> ControllerResult"

text \<open>\<^verbatim>\<open>update.ControllerFilter\<close>: one method, \<^verbatim>\<open>Filter(ControllerUpdate) ControllerResult\<close>.\<close>

type_synonym ControllerFilter = "ControllerUpdate \<Rightarrow> ControllerResult"

text \<open>
  Modelled from the spec: the status constants and \<^verbatim>\<open>NotInCluster\<close> of package
  \<^verbatim>\<open>update\<close> are not in the source files at hand. The spec names the statuses
  SUCCESS, SKIPPED, IGNORED, FAILED and the reason "not in cluster".
\<close>

definition ReleaseStatusSuccess :: string where
  "ReleaseStatusSuccess = ''success''"

definition ReleaseStatusFailed :: string where
  "ReleaseStatusFailed = ''failed''"

definition ReleaseStatusSkipped :: string where
  "ReleaseStatusSkipped = ''skipped''"

definition ReleaseStatusIgnored :: string where
  "ReleaseStatusIgnored = ''ignored''"

definition NotInCluster :: string where
  "NotInCluster = ''not in cluster''"

text \<open>Go's zero value of the struct.\<close>

definition zeroController :: Controller where
  "zeroController = \<lparr>ID = [], Containers = []\<rparr>"

section \<open>The checkout on disk, instrumented\<close>

text \<open>
  A file of the working tree: its \<^verbatim>\<open>os.FileMode\<close> (a \<^verbatim>\<open>uint32\<close>) and its bytes.
\<close>

record File =
  Mode :: "32 word"
  Data :: string

text \<open>
  Every call on the checkout's lock and every access to the working tree is logged, in
  order, so that the lock discipline can be read off the log.
\<close>

datatype Event =
    EvRLock | EvRUnlock | EvLock | EvUnlock
  | EvManifestDir
  | EvFindDefinedServices string
  | EvServicesWithPolicies string
  | EvReadFile string
  | EvStat string
  | EvWriteFile string

text \<open>
  The world a release context acts on: the files of the working tree, the paths on which
  opening for writing is refused, and the log.
\<close>

record World =
  files :: "string \<rightharpoonup> File"
  denied :: "string set"
  trace :: "Event list"

definition emit :: "Event \<Rightarrow> World \<Rightarrow> World" where
  "emit e w = w\<lparr>trace := trace w @ [e]\<rparr>"

text \<open>\<^verbatim>\<open>ioutil.ReadFile\<close>: the bytes of the file, or an error when there is no such file.\<close>

definition ioutil_ReadFile :: "string \<Rightarrow> World \<Rightarrow> (error + string) \<times> World" where
  "ioutil_ReadFile p w =
     (case files w p of
        None \<Rightarrow> (Inl (Failure (''open '' @ p @ '': no such file or directory'')), emit (EvReadFile p) w)
      | Some f \<Rightarrow> (Inr (Data f), emit (EvReadFile p) w))"

text \<open>\<^verbatim>\<open>os.Stat\<close>, of which only \<^verbatim>\<open>Mode()\<close> is used.\<close>

definition os_Stat :: "string \<Rightarrow> World \<Rightarrow> (error + 32 word) \<times> World" where
  "os_Stat p w =
     (case files w p of
        None \<Rightarrow> (Inl (Failure (''stat '' @ p @ '': no such file or directory'')), emit (EvStat p) w)
      | Some f \<Rightarrow> (Inr (Mode f), emit (EvStat p) w))"

text \<open>
  \<^verbatim>\<open>ioutil.WriteFile(path, data, perm)\<close> opens with \<^verbatim>\<open>O_WRONLY|O_CREATE|O_TRUNC\<close>: an
  existing file keeps its mode and gets the new bytes, a missing file is created with
  \<open>perm\<close>. When the open is refused nothing is written.
\<close>

definition ioutil_WriteFile :: "string \<Rightarrow> string \<Rightarrow> 32 word \<Rightarrow> World \<Rightarrow> error option \<times> World" where
  "ioutil_WriteFile p bs perm w =
     (if p \<in> denied w
      then (Some (Failure (''open '' @ p @ '': permission denied'')), emit (EvWriteFile p) w)
      else (None,
            emit (EvWriteFile p)
              (w\<lparr>files := (files w)(p \<mapsto>
                  (case files w p of
                     None \<Rightarrow> \<lparr>Mode = perm, Data = bs\<rparr>
                   | Some f \<Rightarrow> f\<lparr>Data := bs\<rparr>))\<rparr>)))"

section \<open>release/context.go\<close>

text \<open>
  \<^verbatim>\<open>ReleaseContext\<close>: the collaborators are interfaces whose implementations live
  elsewhere, so each method that \<^verbatim>\<open>context.go\<close> calls is a field. The map returned by
  \<^verbatim>\<open>manifests.FindDefinedServices\<close> is an association list in the order in which
  \<^verbatim>\<open>range\<close> happens to visit it.
\<close>

record ReleaseContext =
  cluster_SomeControllers :: "ResourceID list \<Rightarrow> error + Controller list"
  manifests_FindDefinedServices :: "string \<Rightarrow> error + (ResourceID \<times> string list) list"
  manifests_ServicesWithPolicies :: "string \<Rightarrow> error + (ResourceID \<times> string list) list"
  repo_Dir :: string

definition repo_ManifestDir :: "ReleaseContext \<Rightarrow> World \<Rightarrow> string \<times> World" where
  "repo_ManifestDir rc w = (repo_Dir rc, emit EvManifestDir w)"

text \<open>The closure of \<^verbatim>\<open>WriteUpdates\<close> (lines 44 to 55): stat, then write with the mode found.\<close>

fun writeEach :: "ControllerUpdate list \<Rightarrow> World \<Rightarrow> error option \<times> World" where
  "writeEach [] w = (None, w)"
| "writeEach (u # us) w =
     (case os_Stat (ManifestPath u) w of
        (Inl err, w1) \<Rightarrow> (Some err, w1)
      | (Inr mode, w1) \<Rightarrow>
          (case ioutil_WriteFile (ManifestPath u) (ManifestBytes u) mode w1 of
             (Some err, w2) \<Rightarrow> (Some err, w2)
           | (None, w2) \<Rightarrow> writeEach us w2))"

definition WriteUpdates :: "ControllerUpdate list \<Rightarrow> World \<Rightarrow> error option \<times> World" where
  "WriteUpdates updates w =
     (let w1 = emit EvLock w;
          (err, w2) = writeEach updates w1
      in (err, emit EvUnlock w2))"

text \<open>The loop of \<^verbatim>\<open>FindDefinedServices\<close> (lines 138 to 153) over the enumerated map.\<close>

fun readDefined ::
  "(ResourceID \<times> string list) list \<Rightarrow> ControllerUpdate list \<Rightarrow> World
     \<Rightarrow> (error + ControllerUpdate list) \<times> World" where
  "readDefined [] defined w = (Inr defined, w)"
| "readDefined ((rid, paths) # rest) defined w =
     (case paths of
        [p] \<Rightarrow>
          (case ioutil_ReadFile p w of
             (Inl err, w1) \<Rightarrow> (Inl err, w1)
           | (Inr def, w1) \<Rightarrow>
               readDefined rest
                 (defined @ [\<lparr>ResourceID = rid, Controller = zeroController,
                              ManifestPath = p, ManifestBytes = def, Updates = []\<rparr>]) w1)
      | _ \<Rightarrow> (Inl (MultipleResourceFiles rid paths), w))"

definition FindDefinedServices ::
  "ReleaseContext \<Rightarrow> World \<Rightarrow> (error + ControllerUpdate list) \<times> World" where
  "FindDefinedServices rc w =
     (let w1 = emit EvRLock w;
          (dir, w2) = repo_ManifestDir rc w1;
          w3 = emit (EvFindDefinedServices dir) w2
      in case manifests_FindDefinedServices rc dir of
           Inl err \<Rightarrow> (Inl err, emit EvRUnlock w3)
         | Inr services \<Rightarrow>
             (let (r, w4) = readDefined services [] w3
              in (r, emit EvRUnlock w4)))"

definition ServicesWithPolicies ::
  "ReleaseContext \<Rightarrow> World \<Rightarrow> (error + (ResourceID \<times> string list) list) \<times> World" where
  "ServicesWithPolicies rc w =
     (let w1 = emit EvRLock w;
          (dir, w2) = repo_ManifestDir rc w1;
          w3 = emit (EvServicesWithPolicies dir) w2
      in (manifests_ServicesWithPolicies rc dir, emit EvRUnlock w3))"

text \<open>Lines 75 to 78: the ids and the map from id to update.\<close>

definition definedMapOf :: "ControllerUpdate list \<Rightarrow> (ResourceID \<times> ControllerUpdate) list" where
  "definedMapOf defined = fold (\<lambda>s m. AList.update (ResourceID s) s m) defined []"

text \<open>
  Lines 88 to 97: each running controller that is defined gets its snapshot attached, is
  appended to the updates and leaves the map; the others are passed over.
\<close>

fun correlate ::
  "Controller list \<Rightarrow> ControllerUpdate list \<Rightarrow> (ResourceID \<times> ControllerUpdate) list
     \<Rightarrow> ControllerUpdate list \<times> (ResourceID \<times> ControllerUpdate) list" where
  "correlate [] updates definedMap = (updates, definedMap)"
| "correlate (s # services) updates definedMap =
     (case map_of definedMap (ID s) of
        None \<Rightarrow> correlate services updates definedMap
      | Some update \<Rightarrow>
          correlate services (updates @ [update\<lparr>Controller := s\<rparr>]) (AList.delete (ID s) definedMap))"

text \<open>
  Lines 100 to 107. \<open>flt\<close> stands for the method \<^verbatim>\<open>(*ControllerUpdate).Filter\<close> of package
  \<^verbatim>\<open>update\<close>, which runs the filters on one update.
\<close>

fun filterUpdates ::
  "(ControllerUpdate \<Rightarrow> ControllerFilter list \<Rightarrow> ControllerResult) \<Rightarrow> ControllerFilter list
     \<Rightarrow> ControllerUpdate list \<Rightarrow> ControllerUpdate list \<Rightarrow> Result
     \<Rightarrow> ControllerUpdate list \<times> Result" where
  "filterUpdates flt filters [] filteredUpdates results = (filteredUpdates, results)"
| "filterUpdates flt filters (s # updates) filteredUpdates results =
     (let fr = flt s filters;
          results1 = results(ResourceID s \<mapsto> fr)
      in if Status fr = ReleaseStatusSuccess \<or> Status fr = []
         then filterUpdates flt filters updates (filteredUpdates @ [s]) results1
         else filterUpdates flt filters updates filteredUpdates results1)"

text \<open>Lines 110 to 117, over the entries left in the map.\<close>

fun filterDefined ::
  "(ControllerUpdate \<Rightarrow> ControllerFilter list \<Rightarrow> ControllerResult) \<Rightarrow> ControllerFilter list
     \<Rightarrow> (ResourceID \<times> ControllerUpdate) list \<Rightarrow> (ResourceID \<times> ControllerUpdate) list \<Rightarrow> Result
     \<Rightarrow> (ResourceID \<times> ControllerUpdate) list \<times> Result" where
  "filterDefined flt filters [] filteredDefined results = (filteredDefined, results)"
| "filterDefined flt filters ((k, s) # definedMap) filteredDefined results =
     (let fr = flt s filters;
          results1 = results(ResourceID s \<mapsto> fr)
      in if Status fr \<noteq> ReleaseStatusIgnored
         then filterDefined flt filters definedMap (AList.update k s filteredDefined) results1
         else filterDefined flt filters definedMap filteredDefined results1)"

text \<open>Lines 120 to 125.\<close>

fun markSkipped :: "(ResourceID \<times> ControllerUpdate) list \<Rightarrow> Result \<Rightarrow> Result" where
  "markSkipped [] results = results"
| "markSkipped ((rid, s) # filteredDefined) results =
     markSkipped filteredDefined
       (results(rid \<mapsto> \<lparr>Status = ReleaseStatusSkipped, Error = NotInCluster, PerContainer = []\<rparr>))"

text \<open>
  \<^verbatim>\<open>SelectServices\<close>. The Go function returns the updates and an error and writes into the
  \<^verbatim>\<open>results\<close> map it was given; the model returns that map as well.
\<close>

definition SelectServices ::
  "(ControllerUpdate \<Rightarrow> ControllerFilter list \<Rightarrow> ControllerResult)
     \<Rightarrow> ReleaseContext \<Rightarrow> Result \<Rightarrow> ControllerFilter list \<Rightarrow> World
     \<Rightarrow> (error + ControllerUpdate list) \<times> Result \<times> World" where
  "SelectServices flt rc results filters w =
     (case FindDefinedServices rc w of
        (Inl err, w1) \<Rightarrow> (Inl err, results, w1)
      | (Inr defined, w1) \<Rightarrow>
          (let ids = map ResourceID defined;
               definedMap = definedMapOf defined
           in case cluster_SomeControllers rc ids of
                Inl err \<Rightarrow> (Inl err, results, w1)
              | Inr services \<Rightarrow>
                  (let (updates, definedMap1) = correlate services [] definedMap;
                       (filteredUpdates, results1) = filterUpdates flt filters updates [] results;
                       (filteredDefined, results2) = filterDefined flt filters definedMap1 [] results1;
                       results3 = markSkipped filteredDefined results2
                   in (Inr filteredUpdates, results3, w1))))"

text \<open>
  Modelled from the spec: the method \<^verbatim>\<open>(*ControllerUpdate).Filter\<close> of package
  \<^verbatim>\<open>update\<close> is not in the source files at hand. The spec: "The pipeline applies filters
  in the order given; the first filter that returns a non-success verdict wins. Success
  verdicts pass through." So the verdict is that of the first filter that does not
  return SUCCESS, and when every filter returns SUCCESS the SUCCESS verdict of the last
  one passes through. A \<^verbatim>\<open>ControllerResult\<close> of the spec has one of the statuses SUCCESS,
  SKIPPED, IGNORED, FAILED; with no filter at all nothing objects, and the verdict is
  SUCCESS.
\<close>

fun Filter :: "ControllerUpdate \<Rightarrow> ControllerFilter list \<Rightarrow> ControllerResult" where
  "Filter s [] = \<lparr>Status = ReleaseStatusSuccess, Error = [], PerContainer = []\<rparr>"
| "Filter s [f] = f s"
| "Filter s (f # g # filters) =
     (let fr = f s
      in if Status fr \<noteq> ReleaseStatusSuccess then fr else Filter s (g # filters))"

section \<open>service/http/server.go: the update-images handler\<close>

text \<open>
  \<^verbatim>\<open>update.ResourceSpec\<close>, \<^verbatim>\<open>update.ImageSpec\<close>, \<^verbatim>\<open>update.ReleaseKind\<close> and \<^verbatim>\<open>job.ID\<close>
  are Go string types.
\<close>

type_synonym ResourceSpec = string

type_synonym ImageSpec = string

type_synonym ReleaseKind = string

type_synonym JobID = string

record ReleaseSpec =
  ServiceSpecs :: "ResourceSpec list"
  ImageSpec :: ImageSpec
  Kind :: ReleaseKind
  Excludes :: "ResourceID list"

record Cause =
  User :: string
  Message :: string

text \<open>
  The parsers of packages \<^verbatim>\<open>update\<close> and \<^verbatim>\<open>flux\<close> are not in the source files at hand;
  the handler is modelled for any parsers.
\<close>

record Parsers =
  update_ParseResourceSpec :: "string \<Rightarrow> error + ResourceSpec"
  update_ParseImageSpec :: "string \<Rightarrow> error + ImageSpec"
  update_ParseReleaseKind :: "string \<Rightarrow> error + ReleaseKind"
  flux_ParseResourceID :: "string \<Rightarrow> error + ResourceID"

text \<open>
  What the handler reads of the \<^verbatim>\<open>http.Request\<close>: the route variables \<^verbatim>\<open>mux.Vars(r)\<close>,
  the error of \<^verbatim>\<open>r.ParseForm()\<close>, the form values \<^verbatim>\<open>r.Form\<close> and the query values
  \<^verbatim>\<open>r.URL.Query()\<close>.
\<close>

record Request =
  Vars :: "string \<rightharpoonup> string"
  ParseForm :: "error option"
  Form :: "string \<rightharpoonup> string list"
  URLQuery :: "string \<rightharpoonup> string list"

text \<open>Indexing a Go map: a missing key gives the zero value, the empty string or the nil slice.\<close>

definition index :: "(string \<rightharpoonup> 'a list) \<Rightarrow> string \<Rightarrow> 'a list" where
  "index m k = (case m k of None \<Rightarrow> [] | Some v \<Rightarrow> v)"

text \<open>\<^verbatim>\<open>r.FormValue(key)\<close>: the first value of the key in the form, or the empty string.\<close>

definition FormValue :: "Request \<Rightarrow> string \<Rightarrow> string" where
  "FormValue r k = (case index (Form r) k of [] \<Rightarrow> [] | v # _ \<Rightarrow> v)"

text \<open>
  The service behind the handler: \<open>UpdateImages_reply\<close> is what its \<^verbatim>\<open>UpdateImages\<close>
  answers, \<open>submitted\<close> the calls it has received, in order.
\<close>

record Service =
  UpdateImages_reply :: "ReleaseSpec \<Rightarrow> Cause \<Rightarrow> error + JobID"
  submitted :: "(ReleaseSpec \<times> Cause) list"

definition service_UpdateImages ::
  "ReleaseSpec \<Rightarrow> Cause \<Rightarrow> Service \<Rightarrow> (error + JobID) \<times> Service" where
  "service_UpdateImages spec cause svc =
     (UpdateImages_reply svc spec cause, svc\<lparr>submitted := submitted svc @ [(spec, cause)]\<rparr>)"

text \<open>
  What the handler writes: \<^verbatim>\<open>transport.WriteError(w, r, code, err)\<close>,
  \<^verbatim>\<open>transport.ErrorResponse(w, r, err)\<close> or \<^verbatim>\<open>transport.JSONResponse(w, r, jobID)\<close>.
\<close>

datatype Response =
    WriteError nat error
  | ErrorResponse error
  | JSONResponse JobID

definition StatusBadRequest :: nat where
  "StatusBadRequest = 400"

text \<open>Lines 171 to 178: the loop over \<^verbatim>\<open>r.Form["service"]\<close>.\<close>

fun parseServiceSpecs ::
  "Parsers \<Rightarrow> string list \<Rightarrow> ResourceSpec list \<Rightarrow> error + ResourceSpec list" where
  "parseServiceSpecs ps [] serviceSpecs = Inr serviceSpecs"
| "parseServiceSpecs ps (service # rest) serviceSpecs =
     (case update_ParseResourceSpec ps service of
        Inl err \<Rightarrow> Inl (Wrapf err ''parsing service spec %q'' [service])
      | Inr serviceSpec \<Rightarrow> parseServiceSpecs ps rest (serviceSpecs @ [serviceSpec]))"

text \<open>Lines 191 to 198: the loop over \<^verbatim>\<open>r.URL.Query()["exclude"]\<close>.\<close>

fun parseExcludes ::
  "Parsers \<Rightarrow> string list \<Rightarrow> ResourceID list \<Rightarrow> error + ResourceID list" where
  "parseExcludes ps [] excludes = Inr excludes"
| "parseExcludes ps (ex # rest) excludes =
     (case flux_ParseResourceID ps ex of
        Inl err \<Rightarrow> Inl (Wrapf err ''parsing excluded service %q'' [ex])
      | Inr s \<Rightarrow> parseExcludes ps rest (excludes @ [s]))"

text \<open>\<^verbatim>\<open>HTTPService.UpdateImages\<close>, lines 159 to 215.\<close>

definition HTTPService_UpdateImages ::
  "Parsers \<Rightarrow> Request \<Rightarrow> Service \<Rightarrow> Response \<times> Service" where
  "HTTPService_UpdateImages ps r svc =
     (let image = index (Vars r) ''image'';
          kind = index (Vars r) ''kind''
      in case ParseForm r of
           Some err \<Rightarrow> (WriteError StatusBadRequest (Wrapf err ''parsing form'' []), svc)
         | None \<Rightarrow>
      (case parseServiceSpecs ps (index (Form r) ''service'') [] of
           Inl err \<Rightarrow> (WriteError StatusBadRequest err, svc)
         | Inr serviceSpecs \<Rightarrow>
      (case update_ParseImageSpec ps image of
           Inl err \<Rightarrow>
             (WriteError StatusBadRequest (Wrapf err ''parsing image spec %q'' [image]), svc)
         | Inr imageSpec \<Rightarrow>
      (case update_ParseReleaseKind ps kind of
           Inl err \<Rightarrow>
             (WriteError StatusBadRequest (Wrapf err ''parsing release kind %q'' [kind]), svc)
         | Inr releaseKind \<Rightarrow>
      (case parseExcludes ps (index (URLQuery r) ''exclude'') [] of
           Inl err \<Rightarrow> (WriteError StatusBadRequest err, svc)
         | Inr excludes \<Rightarrow>
      (case service_UpdateImages
              \<lparr>ServiceSpecs = serviceSpecs, ImageSpec = imageSpec,
               Kind = releaseKind, Excludes = excludes\<rparr>
              \<lparr>User = FormValue r ''user'', Message = FormValue r ''message''\<rparr> svc of
           (Inl err, svc1) \<Rightarrow> (ErrorResponse err, svc1)
         | (Inr jobID, svc1) \<Rightarrow> (JSONResponse jobID, svc1)))))))"

section \<open>Notions used in the statements\<close>

text \<open>The test of line 104: the verdicts with which an update is kept.\<close>

definition passes :: "ControllerResult \<Rightarrow> bool" where
  "passes fr \<longleftrightarrow> Status fr = ReleaseStatusSuccess \<or> Status fr = []"

text \<open>The literal of lines 121 to 124.\<close>

definition notInClusterResult :: ControllerResult where
  "notInClusterResult = \<lparr>Status = ReleaseStatusSkipped, Error = NotInCluster, PerContainer = []\<rparr>"

text \<open>
  The invariant of \<^verbatim>\<open>definedMap\<close>: it is a Go map, so its keys are distinct, and each
  update is stored under its own id.
\<close>

definition wfmap :: "(ResourceID \<times> ControllerUpdate) list \<Rightarrow> bool" where
  "wfmap m \<longleftrightarrow> distinct (map fst m) \<and> (\<forall>(k, s) \<in> set m. ResourceID s = k)"

text \<open>
  \<open>disciplined r x evs\<close>: starting with \<open>r\<close> read locks held and the write lock held iff
  \<open>x\<close>, the log \<open>evs\<close> takes and releases the checkout's lock properly, reads the working
  tree only while a read lock is held, stats and writes files only while the write lock
  is held, and ends with no lock held.
\<close>

fun disciplined :: "nat \<Rightarrow> bool \<Rightarrow> Event list \<Rightarrow> bool" where
  "disciplined r x [] = (r = 0 \<and> \<not> x)"
| "disciplined r x (EvRLock # evs) = (\<not> x \<and> disciplined (Suc r) x evs)"
| "disciplined r x (EvRUnlock # evs) = (0 < r \<and> disciplined (r - 1) x evs)"
| "disciplined r x (EvLock # evs) = (r = 0 \<and> \<not> x \<and> disciplined r True evs)"
| "disciplined r x (EvUnlock # evs) = (x \<and> disciplined r False evs)"
| "disciplined r x (EvManifestDir # evs) = (0 < r \<and> disciplined r x evs)"
| "disciplined r x (EvFindDefinedServices dir # evs) = (0 < r \<and> disciplined r x evs)"
| "disciplined r x (EvServicesWithPolicies dir # evs) = (0 < r \<and> disciplined r x evs)"
| "disciplined r x (EvReadFile p # evs) = (0 < r \<and> disciplined r x evs)"
| "disciplined r x (EvStat p # evs) = (x \<and> disciplined r x evs)"
| "disciplined r x (EvWriteFile p # evs) = (x \<and> disciplined r x evs)"

text \<open>The events that a call added to the log.\<close>

definition added :: "World \<Rightarrow> World \<Rightarrow> Event list" where
  "added w w' = drop (length (trace w)) (trace w')"

text \<open>The two kinds of access to the files.\<close>

definition isReadEvent :: "Event \<Rightarrow> bool" where
  "isReadEvent e = (case e of EvReadFile p \<Rightarrow> True | _ \<Rightarrow> False)"

definition isWriteEvent :: "Event \<Rightarrow> bool" where
  "isWriteEvent e = (case e of EvStat p \<Rightarrow> True | EvWriteFile p \<Rightarrow> True | _ \<Rightarrow> False)"

text \<open>
  The effect that the specification gives one update: the file at its path gets its
  bytes and keeps its mode (a path with no file is left alone).
\<close>

definition overwrite :: "ControllerUpdate \<Rightarrow> (string \<rightharpoonup> File) \<Rightarrow> (string \<rightharpoonup> File)" where
  "overwrite u fs =
     (case fs (ManifestPath u) of
        None \<Rightarrow> fs
      | Some f \<Rightarrow> fs(ManifestPath u \<mapsto> f\<lparr>Data := ManifestBytes u\<rparr>))"

section \<open>A small repository to run the model on\<close>

definition ex_rc :: ReleaseContext where
  "ex_rc =
     \<lparr>cluster_SomeControllers =
        (\<lambda>ids. Inr [\<lparr>ID = ''default:deployment/b'', Containers = [(''main'', ''y:2'')]\<rparr>,
                     \<lparr>ID = ''default:deployment/z'', Containers = []\<rparr>]),
      manifests_FindDefinedServices =
        (\<lambda>dir. Inr [(''default:deployment/a'', [''a.yaml'']),
                     (''default:deployment/b'', [''b.yaml'']),
                     (''default:deployment/c'', [''c.yaml''])]),
      manifests_ServicesWithPolicies = (\<lambda>dir. Inr []),
      repo_Dir = ''/repo''\<rparr>"

definition ex_world :: World where
  "ex_world =
     \<lparr>files = [''a.yaml'' \<mapsto> \<lparr>Mode = 420, Data = ''A''\<rparr>,
               ''b.yaml'' \<mapsto> \<lparr>Mode = 420, Data = ''B''\<rparr>,
               ''c.yaml'' \<mapsto> \<lparr>Mode = 384, Data = ''C''\<rparr>],
      denied = {''c.yaml''},
      trace = []\<rparr>"

definition ex_defined :: "ControllerUpdate list" where
  "ex_defined =
     [\<lparr>ResourceID = ''default:deployment/a'', Controller = zeroController,
       ManifestPath = ''a.yaml'', ManifestBytes = ''A'', Updates = []\<rparr>,
      \<lparr>ResourceID = ''default:deployment/b'', Controller = zeroController,
       ManifestPath = ''b.yaml'', ManifestBytes = ''B'', Updates = []\<rparr>,
      \<lparr>ResourceID = ''default:deployment/c'', Controller = zeroController,
       ManifestPath = ''c.yaml'', ManifestBytes = ''C'', Updates = []\<rparr>]"

definition ex_services :: "Controller list" where
  "ex_services =
     [\<lparr>ID = ''default:deployment/b'', Containers = [(''main'', ''y:2'')]\<rparr>,
      \<lparr>ID = ''default:deployment/z'', Containers = []\<rparr>]"

definition ex_b_running :: ControllerUpdate where
  "ex_b_running =
     \<lparr>ResourceID = ''default:deployment/b'',
      Controller = \<lparr>ID = ''default:deployment/b'', Containers = [(''main'', ''y:2'')]\<rparr>,
      ManifestPath = ''b.yaml'', ManifestBytes = ''B'', Updates = []\<rparr>"

text \<open>Three filters: an exclude list of one id, a lock on one id, and one that always fails.\<close>

definition ex_exclude :: "ResourceID \<Rightarrow> ControllerFilter" where
  "ex_exclude rid u =
     (if ResourceID u = rid
      then \<lparr>Status = ReleaseStatusIgnored, Error = ''excluded'', PerContainer = []\<rparr>
      else \<lparr>Status = ReleaseStatusSuccess, Error = [], PerContainer = []\<rparr>)"

definition ex_locked :: "ResourceID \<Rightarrow> ControllerFilter" where
  "ex_locked rid u =
     (if ResourceID u = rid
      then \<lparr>Status = ReleaseStatusSkipped, Error = ''locked'', PerContainer = []\<rparr>
      else \<lparr>Status = ReleaseStatusSuccess, Error = [], PerContainer = []\<rparr>)"

definition ex_failing :: ControllerFilter where
  "ex_failing u = \<lparr>Status = ReleaseStatusFailed, Error = ''no image satisfies pattern'', PerContainer = []\<rparr>"

text \<open>Updates to write: the second one goes to a file that refuses to be opened for writing.\<close>

definition ex_updates :: "ControllerUpdate list" where
  "ex_updates =
     [\<lparr>ResourceID = ''default:deployment/a'', Controller = zeroController,
       ManifestPath = ''a.yaml'', ManifestBytes = ''A2'', Updates = []\<rparr>,
      \<lparr>ResourceID = ''default:deployment/c'', Controller = zeroController,
       ManifestPath = ''c.yaml'', ManifestBytes = ''C2'', Updates = []\<rparr>,
      \<lparr>ResourceID = ''default:deployment/b'', Controller = zeroController,
       ManifestPath = ''b.yaml'', ManifestBytes = ''B2'', Updates = []\<rparr>]"

text \<open>The same repository when a second manifest is found for one workload, and when a manifest has gone from the disk.\<close>

definition ex_rc_multi :: ReleaseContext where
  "ex_rc_multi =
     ex_rc\<lparr>manifests_FindDefinedServices :=
        (\<lambda>dir. Inr [(''default:deployment/a'', [''a.yaml'']),
                     (''default:deployment/b'', [''b.yaml'', ''b-copy.yaml''])])\<rparr>"

definition ex_world_gone :: World where
  "ex_world_gone = ex_world\<lparr>files := (files ex_world)(''a.yaml'' := None)\<rparr>"

text \<open>Parsers, a request and a service for the handler.\<close>

definition ex_parsers :: Parsers where
  "ex_parsers =
     \<lparr>update_ParseResourceSpec =
        (\<lambda>s. if s = ''<all>'' \<or> s = ''default:deployment/a'' then Inr s
              else Inl (Failure ''invalid service spec'')),
      update_ParseImageSpec =
        (\<lambda>s. if s = ''<all latest>'' \<or> s = ''alpine:latest'' then Inr s
              else Inl (Failure ''invalid image spec'')),
      update_ParseReleaseKind =
        (\<lambda>s. if s = ''plan'' \<or> s = ''execute'' then Inr s
              else Inl (Failure ''invalid release kind'')),
      flux_ParseResourceID =
        (\<lambda>s. if s = ''default:deployment/test'' then Inr s
              else Inl (Failure ''invalid service ID''))\<rparr>"

definition ex_request :: Request where
  "ex_request =
     \<lparr>Vars = [''service'' \<mapsto> ''<all>'', ''image'' \<mapsto> ''<all latest>'', ''kind'' \<mapsto> ''execute''],
      ParseForm = None,
      Form = [''service'' \<mapsto> [''<all>''], ''user'' \<mapsto> [''alice'']],
      URLQuery = [''service'' \<mapsto> [''<all>''], ''exclude'' \<mapsto> [''default:deployment/test'']]\<rparr>"

definition ex_service :: Service where
  "ex_service = \<lparr>UpdateImages_reply = (\<lambda>spec cause. Inr ''job-1''), submitted = []\<rparr>"

section \<open>The loops of SelectServices\<close>

lemma wfmap_Nil: "wfmap []"
  by (simp add: wfmap_def)

lemma set_update_subset: "set (AList.update k v al) \<subseteq> insert (k, v) (set al)"
  by (induction al) auto

lemma wfmap_update: "wfmap m \<Longrightarrow> wfmap (AList.update (ResourceID s) s m)"
  unfolding wfmap_def using set_update_subset[of "ResourceID s" s m]
  by (auto simp: distinct_update)

lemma set_delete: "set (AList.delete k al) = {x \<in> set al. fst x \<noteq> k}"
  by (auto simp: AList.delete_eq)

lemma wfmap_delete: "wfmap m \<Longrightarrow> wfmap (AList.delete k m)"
  unfolding wfmap_def by (auto simp: distinct_delete set_delete)

lemma fold_update_wfmap:
  "wfmap acc \<Longrightarrow> wfmap (fold (\<lambda>s m. AList.update (ResourceID s) s m) defined acc)"
  by (induction defined arbitrary: acc) (auto simp: wfmap_update)

lemma fold_update_keys:
  "fst ` set (fold (\<lambda>s m. AList.update (ResourceID s) s m) defined acc)
     = fst ` set acc \<union> ResourceID ` set defined"
  by (induction defined arbitrary: acc) (auto simp: dom_update)

lemma update_fresh: "k \<notin> fst ` set al \<Longrightarrow> AList.update k v al = al @ [(k, v)]"
  by (induction al) auto

lemma fold_update_distinct:
  "distinct (map ResourceID defined) \<Longrightarrow> ResourceID ` set defined \<inter> fst ` set acc = {}
     \<Longrightarrow> fold (\<lambda>s m. AList.update (ResourceID s) s m) defined acc
           = acc @ map (\<lambda>s. (ResourceID s, s)) defined"
proof (induction defined arbitrary: acc)
  case Nil
  then show ?case by simp
next
  case (Cons s defined)
  have fresh: "ResourceID s \<notin> fst ` set acc" using Cons.prems(2) by auto
  have "ResourceID ` set defined \<inter> fst ` set (acc @ [(ResourceID s, s)]) = {}"
    using Cons.prems by auto
  with Cons.IH[of "acc @ [(ResourceID s, s)]"] Cons.prems(1) fresh
  show ?case by (simp add: update_fresh)
qed

lemma wfmap_definedMapOf: "wfmap (definedMapOf defined)"
  unfolding definedMapOf_def by (rule fold_update_wfmap[OF wfmap_Nil])

lemma keys_definedMapOf: "fst ` set (definedMapOf defined) = ResourceID ` set defined"
  unfolding definedMapOf_def by (simp add: fold_update_keys)

lemma definedMapOf_distinct:
  "distinct (map ResourceID defined) \<Longrightarrow> definedMapOf defined = map (\<lambda>s. (ResourceID s, s)) defined"
  unfolding definedMapOf_def using fold_update_distinct[of defined "[]"] by simp

lemma wfmap_unique: "wfmap m \<Longrightarrow> (k, a) \<in> set m \<Longrightarrow> (k, b) \<in> set m \<Longrightarrow> a = b"
  unfolding wfmap_def by (metis map_of_is_SomeI option.inject)

lemma wfmap_key: "wfmap m \<Longrightarrow> (k, s) \<in> set m \<Longrightarrow> ResourceID s = k"
  unfolding wfmap_def by auto

lemma correlate_props:
  "wfmap dm \<Longrightarrow> correlate services ups dm = (ups', dm') \<Longrightarrow>
     dm' = filter (\<lambda>(k, s). k \<notin> ID ` set services) dm \<and>
     (\<exists>picked. ups' = ups @ picked
        \<and> ResourceID ` set picked = fst ` set dm \<inter> ID ` set services
        \<and> distinct (map ResourceID picked)
        \<and> (\<forall>u \<in> set picked. \<exists>d c. (ResourceID u, d) \<in> set dm
              \<and> find (\<lambda>c. ID c = ResourceID u) services = Some c \<and> u = d\<lparr>Controller := c\<rparr>))"
proof (induction services arbitrary: ups dm)
  case Nil
  then show ?case by auto
next
  case (Cons s services)
  show ?case
  proof (cases "map_of dm (ID s)")
    case None
    then have notin: "ID s \<notin> fst ` set dm" by (simp add: map_of_eq_None_iff)
    from None Cons.prems(2) have "correlate services ups dm = (ups', dm')" by simp
    from Cons.IH[OF Cons.prems(1) this] obtain picked where
      dm': "dm' = filter (\<lambda>(k, s). k \<notin> ID ` set services) dm" and
      ups': "ups' = ups @ picked" and
      keys: "ResourceID ` set picked = fst ` set dm \<inter> ID ` set services" and
      dist: "distinct (map ResourceID picked)" and
      each: "\<forall>u \<in> set picked. \<exists>d c. (ResourceID u, d) \<in> set dm
              \<and> find (\<lambda>c. ID c = ResourceID u) services = Some c \<and> u = d\<lparr>Controller := c\<rparr>"
      by blast
    have a: "dm' = filter (\<lambda>(k, x). k \<notin> ID ` set (s # services)) dm"
      unfolding dm' using notin by (intro filter_cong) (auto simp: rev_image_eqI)
    have b: "ResourceID ` set picked = fst ` set dm \<inter> ID ` set (s # services)"
      using keys notin by auto
    have c: "\<forall>u \<in> set picked. \<exists>d c. (ResourceID u, d) \<in> set dm
              \<and> find (\<lambda>c. ID c = ResourceID u) (s # services) = Some c \<and> u = d\<lparr>Controller := c\<rparr>"
    proof
      fix u assume u: "u \<in> set picked"
      with each obtain d c where dc: "(ResourceID u, d) \<in> set dm"
        "find (\<lambda>c. ID c = ResourceID u) services = Some c" "u = d\<lparr>Controller := c\<rparr>" by blast
      from dc(1) notin have "ID s \<noteq> ResourceID u" by (metis fst_conv rev_image_eqI)
      with dc show "\<exists>d c. (ResourceID u, d) \<in> set dm
              \<and> find (\<lambda>c. ID c = ResourceID u) (s # services) = Some c \<and> u = d\<lparr>Controller := c\<rparr>"
        by auto
    qed
    from a b c ups' dist show ?thesis by blast
  next
    case (Some d0)
    then have d0: "(ID s, d0) \<in> set dm" by (rule map_of_SomeD)
    have rid: "ResourceID d0 = ID s" using wfmap_key[OF Cons.prems(1) d0] .
    let ?dm1 = "AList.delete (ID s) dm"
    let ?u0 = "d0\<lparr>Controller := s\<rparr>"
    from Some Cons.prems(2) have "correlate services (ups @ [?u0]) ?dm1 = (ups', dm')" by simp
    from Cons.IH[OF wfmap_delete[OF Cons.prems(1)] this] obtain picked where
      dm': "dm' = filter (\<lambda>(k, s). k \<notin> ID ` set services) ?dm1" and
      ups': "ups' = (ups @ [?u0]) @ picked" and
      keys: "ResourceID ` set picked = fst ` set ?dm1 \<inter> ID ` set services" and
      dist: "distinct (map ResourceID picked)" and
      each: "\<forall>u \<in> set picked. \<exists>d c. (ResourceID u, d) \<in> set ?dm1
              \<and> find (\<lambda>c. ID c = ResourceID u) services = Some c \<and> u = d\<lparr>Controller := c\<rparr>"
      by blast
    have keys1: "fst ` set ?dm1 = fst ` set dm - {ID s}" by (force simp: set_delete)
    have a: "dm' = filter (\<lambda>(k, x). k \<notin> ID ` set (s # services)) dm"
      unfolding dm' AList.delete_eq by (auto intro!: filter_cong)
    have b: "ResourceID ` set (?u0 # picked) = fst ` set dm \<inter> ID ` set (s # services)"
      using keys keys1 rid d0 by (auto simp: rev_image_eqI)
    have c: "distinct (map ResourceID (?u0 # picked))"
      using dist keys keys1 rid by auto
    have e: "\<forall>u \<in> set (?u0 # picked). \<exists>d c. (ResourceID u, d) \<in> set dm
              \<and> find (\<lambda>c. ID c = ResourceID u) (s # services) = Some c \<and> u = d\<lparr>Controller := c\<rparr>"
    proof
      fix u assume "u \<in> set (?u0 # picked)"
      then consider "u = ?u0" | "u \<in> set picked" by auto
      then show "\<exists>d c. (ResourceID u, d) \<in> set dm
              \<and> find (\<lambda>c. ID c = ResourceID u) (s # services) = Some c \<and> u = d\<lparr>Controller := c\<rparr>"
      proof cases
        case 1
        then show ?thesis using d0 rid by auto
      next
        case 2
        with each obtain d c where dc: "(ResourceID u, d) \<in> set ?dm1"
          "find (\<lambda>c. ID c = ResourceID u) services = Some c" "u = d\<lparr>Controller := c\<rparr>" by blast
        from dc(1) have "ResourceID u \<in> fst ` set ?dm1" by (metis fst_conv rev_image_eqI)
        then have ne: "ID s \<noteq> ResourceID u" using keys1 by auto
        from dc(1) have "(ResourceID u, d) \<in> set dm" by (auto simp: set_delete)
        with dc ne show ?thesis by auto
      qed
    qed
    from a b c e ups' show ?thesis by (intro conjI exI[of _ "?u0 # picked"]) auto
  qed
qed

lemma filterUpdates_fst:
  "fst (filterUpdates flt fs ups fu res) = fu @ filter (\<lambda>s. passes (flt s fs)) ups"
  by (induction ups arbitrary: fu res) (auto simp: Let_def passes_def)

lemma filterUpdates_other:
  "k \<notin> ResourceID ` set ups \<Longrightarrow> snd (filterUpdates flt fs ups fu res) k = res k"
  by (induction ups arbitrary: fu res) (auto simp: Let_def)

lemma filterUpdates_hit:
  "distinct (map ResourceID ups) \<Longrightarrow> u \<in> set ups
     \<Longrightarrow> snd (filterUpdates flt fs ups fu res) (ResourceID u) = Some (flt u fs)"
  by (induction ups arbitrary: fu res) (auto simp: Let_def filterUpdates_other)

lemma filterDefined_keys:
  "fst ` set (fst (filterDefined flt fs dm fd res))
     = fst ` set fd \<union> {k. \<exists>s. (k, s) \<in> set dm \<and> Status (flt s fs) \<noteq> ReleaseStatusIgnored}"
proof (induction dm arbitrary: fd res)
  case Nil
  show ?case by simp
next
  case (Cons x dm)
  obtain k s where x: "x = (k, s)" by (cases x)
  show ?case
  proof (cases "Status (flt s fs) \<noteq> ReleaseStatusIgnored")
    case True
    then have "filterDefined flt fs (x # dm) fd res
                 = filterDefined flt fs dm (AList.update k s fd) (res(ResourceID s \<mapsto> flt s fs))"
      by (simp add: x Let_def)
    then have "fst ` set (fst (filterDefined flt fs (x # dm) fd res))
                 = fst ` set (AList.update k s fd)
                   \<union> {k. \<exists>s. (k, s) \<in> set dm \<and> Status (flt s fs) \<noteq> ReleaseStatusIgnored}"
      by (simp only: Cons.IH)
    then show ?thesis
      using True unfolding x dom_update by auto
  next
    case False
    then have "filterDefined flt fs (x # dm) fd res
                 = filterDefined flt fs dm fd (res(ResourceID s \<mapsto> flt s fs))"
      by (simp add: x Let_def)
    then have "fst ` set (fst (filterDefined flt fs (x # dm) fd res))
                 = fst ` set fd
                   \<union> {k. \<exists>s. (k, s) \<in> set dm \<and> Status (flt s fs) \<noteq> ReleaseStatusIgnored}"
      by (simp only: Cons.IH)
    then show ?thesis
      using False unfolding x by auto
  qed
qed

lemma filterDefined_other:
  "k \<notin> (ResourceID \<circ> snd) ` set dm \<Longrightarrow> snd (filterDefined flt fs dm fd res) k = res k"
  by (induction dm arbitrary: fd res) (auto simp: Let_def)

lemma filterDefined_hit:
  "distinct (map (ResourceID \<circ> snd) dm) \<Longrightarrow> (k, s) \<in> set dm
     \<Longrightarrow> snd (filterDefined flt fs dm fd res) (ResourceID s) = Some (flt s fs)"
  by (induction dm arbitrary: fd res) (auto simp: Let_def filterDefined_other)

lemma markSkipped_apply:
  "markSkipped fd res k =
     (if k \<in> fst ` set fd
      then Some \<lparr>Status = ReleaseStatusSkipped, Error = NotInCluster, PerContainer = []\<rparr>
      else res k)"
  by (induction fd arbitrary: res) (auto simp: rev_image_eqI)

lemma find_None_ID: "find (\<lambda>c. ID c = k) services = None \<longleftrightarrow> k \<notin> ID ` set services"
  by (auto simp: find_None_iff)

lemma find_Some_ID: "find (\<lambda>c. ID c = k) services = Some c \<Longrightarrow> c \<in> set services \<and> ID c = k"
  by (auto simp: find_Some_iff)

lemma SelectServices_succeeds:
  assumes sel: "SelectServices flt rc results fs w = (Inr updates, results', w')"
  shows "\<exists>defined services.
           fst (FindDefinedServices rc w) = Inr defined
         \<and> cluster_SomeControllers rc (map ResourceID defined) = Inr services"
proof -
  obtain r w1 where fds: "FindDefinedServices rc w = (r, w1)" by (cases "FindDefinedServices rc w")
  show ?thesis
  proof (cases r)
    case (Inl e)
    with sel fds show ?thesis by (simp add: SelectServices_def)
  next
    case (Inr defined)
    note fds' = fds[unfolded Inr]
    show ?thesis
    proof (cases "cluster_SomeControllers rc (map ResourceID defined)")
      case (Inl e)
      with sel fds' show ?thesis by (simp add: SelectServices_def)
    next
      case (Inr services)
      with fds' show ?thesis by simp
    qed
  qed
qed

lemma SelectServices_facts:
  assumes sel: "SelectServices flt rc results fs w = (Inr updates, results', w')"
      and fds: "fst (FindDefinedServices rc w) = Inr defined"
      and some: "cluster_SomeControllers rc (map ResourceID defined) = Inr services"
  shows sel_other: "\<And>k. k \<notin> ResourceID ` set defined \<Longrightarrow> results' k = results k"
    and sel_passes: "\<And>u. u \<in> set updates \<Longrightarrow> passes (flt u fs)"
    and sel_update: "\<And>u. u \<in> set updates \<Longrightarrow>
           \<exists>d c. (ResourceID u, d) \<in> set (definedMapOf defined)
                 \<and> find (\<lambda>c. ID c = ResourceID u) services = Some c
                 \<and> u = d\<lparr>Controller := c\<rparr>"
    and sel_running: "\<And>k d c. (k, d) \<in> set (definedMapOf defined)
           \<Longrightarrow> find (\<lambda>c. ID c = k) services = Some c
           \<Longrightarrow> results' k = Some (flt (d\<lparr>Controller := c\<rparr>) fs)"
    and sel_kept: "\<And>k d c. (k, d) \<in> set (definedMapOf defined)
           \<Longrightarrow> find (\<lambda>c. ID c = k) services = Some c
           \<Longrightarrow> passes (flt (d\<lparr>Controller := c\<rparr>) fs)
           \<Longrightarrow> d\<lparr>Controller := c\<rparr> \<in> set updates"
    and sel_missing: "\<And>k d. (k, d) \<in> set (definedMapOf defined)
           \<Longrightarrow> find (\<lambda>c. ID c = k) services = None
           \<Longrightarrow> results' k = Some (if Status (flt d fs) \<noteq> ReleaseStatusIgnored
                                   then notInClusterResult else flt d fs)"
proof -
  let ?dm = "definedMapOf defined"
  obtain w1 where fds1: "FindDefinedServices rc w = (Inr defined, w1)"
    using fds by (cases "FindDefinedServices rc w") simp
  have wf: "wfmap ?dm" by (rule wfmap_definedMapOf)
  obtain ups dm1 where cor: "correlate services [] ?dm = (ups, dm1)" by (cases "correlate services [] ?dm")
  from correlate_props[OF wf cor] have
    dm1: "dm1 = filter (\<lambda>(k, s). k \<notin> ID ` set services) ?dm" and
    keys: "ResourceID ` set ups = fst ` set ?dm \<inter> ID ` set services" and
    dist: "distinct (map ResourceID ups)" and
    each: "\<forall>u \<in> set ups. \<exists>d c. (ResourceID u, d) \<in> set ?dm
              \<and> find (\<lambda>c. ID c = ResourceID u) services = Some c \<and> u = d\<lparr>Controller := c\<rparr>"
    by auto
  obtain fu res1 where f1: "filterUpdates flt fs ups [] results = (fu, res1)"
    by (cases "filterUpdates flt fs ups [] results")
  obtain fd res2 where f2: "filterDefined flt fs dm1 [] res1 = (fd, res2)"
    by (cases "filterDefined flt fs dm1 [] res1")
  have "SelectServices flt rc results fs w = (Inr fu, markSkipped fd res2, w1)"
    by (simp add: SelectServices_def fds1 some cor f1 f2)
  with sel have upd: "updates = fu" and res: "results' = markSkipped fd res2" by simp_all
  have fu: "fu = filter (\<lambda>s. passes (flt s fs)) ups"
    using filterUpdates_fst[of flt fs ups "[]" results] f1 by simp
  have res1_other: "\<And>k. k \<notin> ResourceID ` set ups \<Longrightarrow> res1 k = results k"
    using filterUpdates_other[of _ ups flt fs "[]" results] f1 by simp
  have res1_hit: "\<And>u. u \<in> set ups \<Longrightarrow> res1 (ResourceID u) = Some (flt u fs)"
    using filterUpdates_hit[OF dist, of _ flt fs "[]" results] f1 by simp
  have wf1: "wfmap dm1" using wf unfolding dm1 wfmap_def by (auto simp: distinct_map_filter)
  have rid1: "map (ResourceID \<circ> snd) dm1 = map fst dm1"
    using wf1 unfolding wfmap_def by (auto intro!: map_cong)
  have dist1: "distinct (map (ResourceID \<circ> snd) dm1)"
    using wf1 unfolding rid1 wfmap_def by simp
  have keys1: "fst ` set dm1 = fst ` set ?dm - ID ` set services"
    unfolding dm1 by force
  have res2_other: "\<And>k. k \<notin> fst ` set dm1 \<Longrightarrow> res2 k = res1 k"
  proof -
    fix k assume "k \<notin> fst ` set dm1"
    then have "k \<notin> (ResourceID \<circ> snd) ` set dm1"
      using rid1 by (metis image_set)
    from filterDefined_other[OF this, of flt fs "[]" res1] f2 show "res2 k = res1 k" by simp
  qed
  have res2_hit: "\<And>k s. (k, s) \<in> set dm1 \<Longrightarrow> res2 k = Some (flt s fs)"
  proof -
    fix k s assume ks: "(k, s) \<in> set dm1"
    from filterDefined_hit[OF dist1 ks, of flt fs "[]" res1] f2 wfmap_key[OF wf1 ks]
    show "res2 k = Some (flt s fs)" by simp
  qed
  have fdkeys: "fst ` set fd = {k. \<exists>s. (k, s) \<in> set dm1 \<and> Status (flt s fs) \<noteq> ReleaseStatusIgnored}"
    using filterDefined_keys[of flt fs dm1 "[]" res1] f2 by simp
  have fdsub: "fst ` set fd \<subseteq> fst ` set dm1"
    unfolding fdkeys by force
  have res3: "\<And>k. results' k = (if k \<in> fst ` set fd then Some notInClusterResult else res2 k)"
    unfolding res by (simp add: markSkipped_apply notInClusterResult_def)
  have dmkeys: "fst ` set ?dm = ResourceID ` set defined" by (rule keys_definedMapOf)
  show "\<And>k. k \<notin> ResourceID ` set defined \<Longrightarrow> results' k = results k"
  proof -
    fix k assume k: "k \<notin> ResourceID ` set defined"
    then have "k \<notin> fst ` set dm1" "k \<notin> ResourceID ` set ups"
      using keys1 keys dmkeys by auto
    then show "results' k = results k"
      using res3[of k] fdsub res2_other[of k] res1_other[of k] by auto
  qed
  show "\<And>u. u \<in> set updates \<Longrightarrow> passes (flt u fs)"
    unfolding upd fu by simp
  show "\<And>u. u \<in> set updates \<Longrightarrow>
           \<exists>d c. (ResourceID u, d) \<in> set ?dm
                 \<and> find (\<lambda>c. ID c = ResourceID u) services = Some c
                 \<and> u = d\<lparr>Controller := c\<rparr>"
    using each unfolding upd fu by simp
  {
    fix k d c assume kd: "(k, d) \<in> set ?dm" and fc: "find (\<lambda>c. ID c = k) services = Some c"
    from find_Some_ID[OF fc] have cin: "c \<in> set services" "ID c = k" by auto
    from kd have "k \<in> fst ` set ?dm" by (metis fst_conv rev_image_eqI)
    with cin have "k \<in> ResourceID ` set ups" unfolding keys by auto
    then obtain u where u: "u \<in> set ups" "ResourceID u = k" by auto
    with each obtain d' c' where dc: "(k, d') \<in> set ?dm"
      "find (\<lambda>c. ID c = k) services = Some c'" "u = d'\<lparr>Controller := c'\<rparr>" by blast
    have "d' = d" using wfmap_unique[OF wf dc(1) kd] .
    moreover have "c' = c" using dc(2) fc by simp
    ultimately have ueq: "u = d\<lparr>Controller := c\<rparr>" using dc(3) by simp
    have notin1: "k \<notin> fst ` set dm1" using keys1 cin by auto
    have "results' k = res1 k" using res3[of k] fdsub notin1 res2_other[OF notin1] by auto
    also have "\<dots> = Some (flt u fs)" using res1_hit[OF u(1)] u(2) by simp
    finally have r: "results' k = Some (flt (d\<lparr>Controller := c\<rparr>) fs)" unfolding ueq .
    have "passes (flt (d\<lparr>Controller := c\<rparr>) fs) \<Longrightarrow> d\<lparr>Controller := c\<rparr> \<in> set updates"
      using u(1) unfolding upd fu ueq by simp
    note r this
  } note running = this
  show "\<And>k d c. (k, d) \<in> set ?dm \<Longrightarrow> find (\<lambda>c. ID c = k) services = Some c
           \<Longrightarrow> results' k = Some (flt (d\<lparr>Controller := c\<rparr>) fs)"
    by (rule running(1))
  show "\<And>k d c. (k, d) \<in> set ?dm \<Longrightarrow> find (\<lambda>c. ID c = k) services = Some c
           \<Longrightarrow> passes (flt (d\<lparr>Controller := c\<rparr>) fs)
           \<Longrightarrow> d\<lparr>Controller := c\<rparr> \<in> set updates"
    by (rule running(2))
  show "\<And>k d. (k, d) \<in> set ?dm \<Longrightarrow> find (\<lambda>c. ID c = k) services = None
           \<Longrightarrow> results' k = Some (if Status (flt d fs) \<noteq> ReleaseStatusIgnored
                                   then notInClusterResult else flt d fs)"
  proof -
    fix k d assume kd: "(k, d) \<in> set ?dm" and fc: "find (\<lambda>c. ID c = k) services = None"
    from fc have "k \<notin> ID ` set services" by (simp add: find_None_ID)
    with kd have kd1: "(k, d) \<in> set dm1" unfolding dm1 by simp
    have r2: "res2 k = Some (flt d fs)" using res2_hit[OF kd1] .
    have "k \<in> fst ` set fd \<longleftrightarrow> (\<exists>s. (k, s) \<in> set dm1 \<and> Status (flt s fs) \<noteq> ReleaseStatusIgnored)"
      unfolding fdkeys by simp
    also have "\<dots> \<longleftrightarrow> Status (flt d fs) \<noteq> ReleaseStatusIgnored"
      using kd1 wfmap_unique[OF wf1 kd1] by blast
    finally show "results' k = Some (if Status (flt d fs) \<noteq> ReleaseStatusIgnored
                                       then notInClusterResult else flt d fs)"
      using res3[of k] r2 by simp
  qed
qed

lemma in_definedMapOf_distinct:
  "distinct (map ResourceID defined) \<Longrightarrow>
     (k, d) \<in> set (definedMapOf defined) \<longleftrightarrow> d \<in> set defined \<and> k = ResourceID d"
  by (auto simp: definedMapOf_distinct image_iff)

text \<open>The same facts, read on the list of defined workloads when its ids are distinct.\<close>

lemma SelectServices_defined_facts:
  assumes sel: "SelectServices flt rc results fs w = (Inr updates, results', w')"
      and fds: "fst (FindDefinedServices rc w) = Inr defined"
      and some: "cluster_SomeControllers rc (map ResourceID defined) = Inr services"
  shows def_total: "\<And>s. s \<in> set defined \<Longrightarrow> results' (ResourceID s) \<noteq> None"
    and def_update: "\<And>u. distinct (map ResourceID defined) \<Longrightarrow> u \<in> set updates \<Longrightarrow>
           \<exists>s c. s \<in> set defined \<and> find (\<lambda>c. ID c = ResourceID s) services = Some c
                 \<and> u = s\<lparr>Controller := c\<rparr>"
    and def_running: "\<And>s c. distinct (map ResourceID defined) \<Longrightarrow> s \<in> set defined
           \<Longrightarrow> find (\<lambda>c. ID c = ResourceID s) services = Some c
           \<Longrightarrow> results' (ResourceID s) = Some (flt (s\<lparr>Controller := c\<rparr>) fs)"
    and def_kept: "\<And>s c. distinct (map ResourceID defined) \<Longrightarrow> s \<in> set defined
           \<Longrightarrow> find (\<lambda>c. ID c = ResourceID s) services = Some c
           \<Longrightarrow> passes (flt (s\<lparr>Controller := c\<rparr>) fs)
           \<Longrightarrow> s\<lparr>Controller := c\<rparr> \<in> set updates"
    and def_missing: "\<And>s. distinct (map ResourceID defined) \<Longrightarrow> s \<in> set defined
           \<Longrightarrow> find (\<lambda>c. ID c = ResourceID s) services = None
           \<Longrightarrow> results' (ResourceID s) = Some (if Status (flt s fs) \<noteq> ReleaseStatusIgnored
                                                then notInClusterResult else flt s fs)"
    and def_absent: "\<And>s u. s \<in> set defined
           \<Longrightarrow> find (\<lambda>c. ID c = ResourceID s) services = None
           \<Longrightarrow> u \<in> set updates \<Longrightarrow> ResourceID u \<noteq> ResourceID s"
proof -
  note facts = SelectServices_facts[OF sel fds some]
  have keys: "fst ` set (definedMapOf defined) = ResourceID ` set defined"
    by (rule keys_definedMapOf)
  show "\<And>s. s \<in> set defined \<Longrightarrow> results' (ResourceID s) \<noteq> None"
  proof -
    fix s assume "s \<in> set defined"
    then have "ResourceID s \<in> fst ` set (definedMapOf defined)" unfolding keys by simp
    then obtain d where d: "(ResourceID s, d) \<in> set (definedMapOf defined)" by force
    show "results' (ResourceID s) \<noteq> None"
    proof (cases "find (\<lambda>c. ID c = ResourceID s) services")
      case None
      from facts(6)[OF d None] show ?thesis by simp
    next
      case (Some c)
      from facts(4)[OF d Some] show ?thesis by simp
    qed
  qed
  show "\<And>u. distinct (map ResourceID defined) \<Longrightarrow> u \<in> set updates \<Longrightarrow>
           \<exists>s c. s \<in> set defined \<and> find (\<lambda>c. ID c = ResourceID s) services = Some c
                 \<and> u = s\<lparr>Controller := c\<rparr>"
  proof -
    fix u assume di: "distinct (map ResourceID defined)" and "u \<in> set updates"
    from facts(3)[OF this(2)] obtain d c where dc: "(ResourceID u, d) \<in> set (definedMapOf defined)"
      "find (\<lambda>c. ID c = ResourceID u) services = Some c" "u = d\<lparr>Controller := c\<rparr>" by blast
    from dc(1) have "d \<in> set defined" "ResourceID u = ResourceID d"
      unfolding in_definedMapOf_distinct[OF di] by simp_all
    with dc(2,3) show "\<exists>s c. s \<in> set defined \<and> find (\<lambda>c. ID c = ResourceID s) services = Some c
                 \<and> u = s\<lparr>Controller := c\<rparr>"
      by (intro exI[of _ d] exI[of _ c]) simp
  qed
  show "\<And>s c. distinct (map ResourceID defined) \<Longrightarrow> s \<in> set defined
           \<Longrightarrow> find (\<lambda>c. ID c = ResourceID s) services = Some c
           \<Longrightarrow> results' (ResourceID s) = Some (flt (s\<lparr>Controller := c\<rparr>) fs)"
    using facts(4) by (simp add: in_definedMapOf_distinct)
  show "\<And>s c. distinct (map ResourceID defined) \<Longrightarrow> s \<in> set defined
           \<Longrightarrow> find (\<lambda>c. ID c = ResourceID s) services = Some c
           \<Longrightarrow> passes (flt (s\<lparr>Controller := c\<rparr>) fs)
           \<Longrightarrow> s\<lparr>Controller := c\<rparr> \<in> set updates"
    using facts(5) by (simp add: in_definedMapOf_distinct)
  show "\<And>s. distinct (map ResourceID defined) \<Longrightarrow> s \<in> set defined
           \<Longrightarrow> find (\<lambda>c. ID c = ResourceID s) services = None
           \<Longrightarrow> results' (ResourceID s) = Some (if Status (flt s fs) \<noteq> ReleaseStatusIgnored
                                                then notInClusterResult else flt s fs)"
    using facts(6) by (simp add: in_definedMapOf_distinct)
  show "\<And>s u. s \<in> set defined
           \<Longrightarrow> find (\<lambda>c. ID c = ResourceID s) services = None
           \<Longrightarrow> u \<in> set updates \<Longrightarrow> ResourceID u \<noteq> ResourceID s"
  proof -
    fix s u assume "s \<in> set defined" and no: "find (\<lambda>c. ID c = ResourceID s) services = None"
      and "u \<in> set updates"
    from facts(3)[OF this(3)] obtain c where "find (\<lambda>c. ID c = ResourceID u) services = Some c"
      by blast
    with no show "ResourceID u \<noteq> ResourceID s" by auto
  qed
qed

text \<open>
  Go visits the entries of \<^verbatim>\<open>definedMap\<close> and of \<^verbatim>\<open>filteredDefined\<close> in an order of its
  own choosing, the model in the order of the lists. The Result does not depend on it:
  every key is written once in each loop.
\<close>

lemma range_order_irrelevant:
  assumes wf: "wfmap dm" and wf': "wfmap dm'" and same: "set dm' = set dm"
      and keys: "fst ` set fd' = fst ` set (fst (filterDefined flt fs dm' [] res))"
  shows "markSkipped fd' (snd (filterDefined flt fs dm' [] res))
           = markSkipped (fst (filterDefined flt fs dm [] res)) (snd (filterDefined flt fs dm [] res))"
proof
  fix k
  have rid: "\<And>m. wfmap m \<Longrightarrow> map (ResourceID \<circ> snd) m = map fst m"
    unfolding wfmap_def by (auto intro!: map_cong)
  have dist: "\<And>m. wfmap m \<Longrightarrow> distinct (map (ResourceID \<circ> snd) m)"
  proof -
    fix m assume m: "wfmap m"
    then have "distinct (map fst m)" unfolding wfmap_def by simp
    then show "distinct (map (ResourceID \<circ> snd) m)" unfolding rid[OF m] .
  qed
  have k1: "fst ` set (fst (filterDefined flt fs dm' [] res))
              = fst ` set (fst (filterDefined flt fs dm [] res))"
    by (simp add: filterDefined_keys same)
  have r: "snd (filterDefined flt fs dm' [] res) k = snd (filterDefined flt fs dm [] res) k"
  proof (cases "k \<in> fst ` set dm")
    case True
    then obtain s where s: "(k, s) \<in> set dm" by force
    then have s': "(k, s) \<in> set dm'" using same by simp
    from filterDefined_hit[OF dist[OF wf] s, of flt fs "[]" res] wfmap_key[OF wf s]
         filterDefined_hit[OF dist[OF wf'] s', of flt fs "[]" res]
    show ?thesis by simp
  next
    case False
    then have a: "k \<notin> (ResourceID \<circ> snd) ` set dm"
      using rid[OF wf] by (metis image_set)
    from False same have "k \<notin> fst ` set dm'" by simp
    then have b: "k \<notin> (ResourceID \<circ> snd) ` set dm'"
      using rid[OF wf'] by (metis image_set)
    from filterDefined_other[OF a, of flt fs "[]" res] filterDefined_other[OF b, of flt fs "[]" res]
    show ?thesis by simp
  qed
  show "markSkipped fd' (snd (filterDefined flt fs dm' [] res)) k
          = markSkipped (fst (filterDefined flt fs dm [] res)) (snd (filterDefined flt fs dm [] res)) k"
    by (simp add: markSkipped_apply keys k1 r)
qed

text \<open>
  The ids that \<^verbatim>\<open>FindDefinedServices\<close> returns are the keys of the enumerated map, in the
  order of the visit; the keys of a Go map are distinct.
\<close>

lemma readDefined_ids:
  "readDefined services acc w = (Inr defined, w') \<Longrightarrow>
     map ResourceID defined = map ResourceID acc @ map fst services"
proof (induction services acc w rule: readDefined.induct)
  case (1 defined w)
  then show ?case by simp
next
  case (2 rid paths rest acc w)
  from "2.prems" obtain p where single: "paths = [p]"
    by (cases paths rule: list.exhaust; cases "tl paths") auto
  from "2.prems" single obtain f where f: "files w p = Some f"
    by (cases "files w p") (auto simp: ioutil_ReadFile_def)
  let ?w1 = "emit (EvReadFile p) w"
  let ?d1 = "acc @ [\<lparr>ResourceID = rid, Controller = zeroController,
                        ManifestPath = p, ManifestBytes = Data f, Updates = []\<rparr>]"
  have rf: "ioutil_ReadFile p w = (Inr (Data f), ?w1)"
    by (simp add: ioutil_ReadFile_def f)
  from "2.prems" have "readDefined rest ?d1 ?w1 = (Inr defined, w')"
    by (simp add: single rf)
  from "2.IH"[OF single refl rf[symmetric] refl this] show ?case by simp
qed

lemma FindDefinedServices_distinct:
  assumes "manifests_FindDefinedServices rc (repo_Dir rc) = Inr services"
      and "distinct (map fst services)"
      and "fst (FindDefinedServices rc w) = Inr defined"
  shows "distinct (map ResourceID defined)"
proof -
  let ?w3 = "emit (EvFindDefinedServices (repo_Dir rc)) (emit EvManifestDir (emit EvRLock w))"
  obtain r w4 where rd: "readDefined services [] ?w3 = (r, w4)"
    by (cases "readDefined services [] ?w3")
  with assms(1,3) have "r = Inr defined"
    by (simp add: FindDefinedServices_def repo_ManifestDir_def)
  with rd readDefined_ids[of services "[]" ?w3 defined w4] assms(2) show ?thesis by simp
qed

lemma distinct_map_eq:
  "distinct (map f xs) \<Longrightarrow> x \<in> set xs \<Longrightarrow> y \<in> set xs \<Longrightarrow> f x = f y \<Longrightarrow> x = y"
  by (simp add: distinct_map inj_on_def)

lemma Ignored_not_passes: "Status fr = ReleaseStatusIgnored \<Longrightarrow> \<not> passes fr"
  by (simp add: passes_def ReleaseStatusIgnored_def ReleaseStatusSuccess_def)

lemma Filter_first:
  "find (\<lambda>f. Status (f s) \<noteq> ReleaseStatusSuccess) fs = Some f \<Longrightarrow> Filter s fs = f s"
  by (induction s fs rule: Filter.induct) (auto simp: Let_def split: if_splits)

lemma Filter_all_success:
  "find (\<lambda>f. Status (f s) \<noteq> ReleaseStatusSuccess) fs = None
     \<Longrightarrow> Status (Filter s fs) = ReleaseStatusSuccess"
  by (induction s fs rule: Filter.induct) (auto simp: Let_def split: if_splits)

lemma triple_eq: "fst x = a \<Longrightarrow> x = (a, fst (snd x), snd (snd x))"
  by (cases x) auto

section \<open>The log of the three operations\<close>

lemma readDefined_trace:
  "\<exists>evs. trace (snd (readDefined services acc w)) = trace w @ evs \<and> (\<forall>e \<in> set evs. isReadEvent e)"
proof (induction services acc w rule: readDefined.induct)
  case (1 defined w)
  show ?case by simp
next
  case (2 rid paths rest defined w)
  show ?case
  proof (cases paths)
    case Nil
    then show ?thesis by simp
  next
    case (Cons p ps)
    show ?thesis
    proof (cases ps)
      case (Cons q qs)
      with \<open>paths = p # ps\<close> show ?thesis by simp
    next
      case Nil
      note single = \<open>paths = p # ps\<close>[unfolded Nil]
      show ?thesis
      proof (cases "files w p")
        case None
        then show ?thesis
          by (simp add: single ioutil_ReadFile_def emit_def isReadEvent_def)
      next
        case (Some f)
        let ?w1 = "emit (EvReadFile p) w"
        let ?d1 = "defined @ [\<lparr>ResourceID = rid, Controller = zeroController,
                              ManifestPath = p, ManifestBytes = Data f, Updates = []\<rparr>]"
        have rf: "ioutil_ReadFile p w = (Inr (Data f), ?w1)"
          by (simp add: ioutil_ReadFile_def Some)
        from "2.IH"[OF single refl rf[symmetric] refl] obtain evs where
          evs: "trace (snd (readDefined rest ?d1 ?w1)) = trace ?w1 @ evs" "\<forall>e \<in> set evs. isReadEvent e"
          by blast
        have "readDefined ((rid, paths) # rest) defined w = readDefined rest ?d1 ?w1"
          by (simp add: single rf)
        with evs show ?thesis
          by (intro exI[of _ "EvReadFile p # evs"]) (simp add: emit_def isReadEvent_def)
      qed
    qed
  qed
qed

lemma disciplined_reads:
  "\<forall>e \<in> set evs. isReadEvent e \<Longrightarrow> 0 < r \<Longrightarrow> disciplined r x (evs @ rest) = disciplined r x rest"
proof (induction evs)
  case Nil
  show ?case by simp
next
  case (Cons e evs)
  then show ?case by (cases e) (simp_all add: isReadEvent_def)
qed

lemma disciplined_writes:
  "\<forall>e \<in> set evs. isWriteEvent e \<Longrightarrow> disciplined r True (evs @ rest) = disciplined r True rest"
proof (induction evs)
  case Nil
  show ?case by simp
next
  case (Cons e evs)
  then show ?case by (cases e) (simp_all add: isWriteEvent_def)
qed

lemma writeEach_trace:
  "\<exists>evs. trace (snd (writeEach us w)) = trace w @ evs \<and> (\<forall>e \<in> set evs. isWriteEvent e)"
proof (induction us arbitrary: w)
  case Nil
  show ?case by simp
next
  case (Cons u us)
  let ?p = "ManifestPath u"
  show ?case
  proof (cases "files w ?p")
    case None
    then show ?thesis by (simp add: os_Stat_def emit_def isWriteEvent_def)
  next
    case (Some f)
    let ?w1 = "emit (EvStat ?p) w"
    have st: "os_Stat ?p w = (Inr (Mode f), ?w1)" by (simp add: os_Stat_def Some)
    show ?thesis
    proof (cases "?p \<in> denied w")
      case True
      then show ?thesis
        by (simp add: st ioutil_WriteFile_def emit_def isWriteEvent_def)
    next
      case False
      obtain w2 where wr: "ioutil_WriteFile ?p (ManifestBytes u) (Mode f) ?w1 = (None, w2)"
        and tr2: "trace w2 = trace w @ [EvStat ?p, EvWriteFile ?p]"
        using False by (simp add: ioutil_WriteFile_def emit_def)
      from Cons.IH[of w2] obtain evs where
        evs: "trace (snd (writeEach us w2)) = trace w2 @ evs" "\<forall>e \<in> set evs. isWriteEvent e"
        by blast
      have "writeEach (u # us) w = writeEach us w2" by (simp add: st wr)
      with evs tr2 show ?thesis
        by (intro exI[of _ "EvStat ?p # EvWriteFile ?p # evs"]) (simp add: isWriteEvent_def)
    qed
  qed
qed

section \<open>WriteUpdates and FindDefinedServices, step by step\<close>

lemma overwrite_dom: "dom (overwrite u fs) = dom fs"
  by (auto simp: overwrite_def split: option.splits)

lemma overwrite_mode:
  "fs p = Some f \<Longrightarrow> \<exists>f'. overwrite u fs p = Some f' \<and> Mode f' = Mode f"
  by (cases "p = ManifestPath u") (auto simp: overwrite_def split: option.splits)

lemma fold_overwrite_mode:
  "fs p = Some f \<Longrightarrow> \<exists>f'. fold overwrite us fs p = Some f' \<and> Mode f' = Mode f"
proof (induction us arbitrary: fs f)
  case Nil
  then show ?case by simp
next
  case (Cons u us)
  from overwrite_mode[of fs p f u, OF Cons.prems] obtain f1 where
    f1: "overwrite u fs p = Some f1" "Mode f1 = Mode f" by blast
  from Cons.IH[of "overwrite u fs" f1, OF f1(1)] f1(2) show ?case by simp
qed

lemma fold_overwrite_dom: "dom (fold overwrite us fs) = dom fs"
  by (induction us arbitrary: fs) (simp_all add: overwrite_dom)

lemma fold_overwrite_None: "fs p = None \<Longrightarrow> fold overwrite us fs p = None"
  using fold_overwrite_dom[of us fs] by (metis domIff)

text \<open>
  The closure of \<^verbatim>\<open>WriteUpdates\<close> writes a prefix of the list, in order, and stops at the
  first update whose file cannot be stat-ed or written.
\<close>

lemma writeEach_prefix:
  "\<exists>n \<le> length us.
      files (snd (writeEach us w)) = fold overwrite (take n us) (files w)
    \<and> denied (snd (writeEach us w)) = denied w
    \<and> (\<forall>u \<in> set (take n us). files w (ManifestPath u) \<noteq> None \<and> ManifestPath u \<notin> denied w)
    \<and> (n = length us \<longrightarrow> fst (writeEach us w) = None)
    \<and> (n < length us \<longrightarrow>
          (files w (ManifestPath (us ! n)) = None \<or> ManifestPath (us ! n) \<in> denied w)
        \<and> (\<exists>e. fst (writeEach us w) = Some e
              \<and> (fst (os_Stat (ManifestPath (us ! n)) (snd (writeEach us w))) = Inl e
                  \<or> (\<exists>m. fst (os_Stat (ManifestPath (us ! n)) (snd (writeEach us w))) = Inr m
                        \<and> fst (ioutil_WriteFile (ManifestPath (us ! n)) (ManifestBytes (us ! n)) m
                                 (snd (writeEach us w))) = Some e))))"
proof (induction us arbitrary: w)
  case Nil
  show ?case by simp
next
  case (Cons u us)
  let ?p = "ManifestPath u"
  show ?case
  proof (cases "files w ?p")
    case None
    then show ?thesis
      by (intro exI[of _ 0]) (simp add: os_Stat_def emit_def)
  next
    case (Some f)
    let ?w1 = "emit (EvStat ?p) w"
    have st: "os_Stat ?p w = (Inr (Mode f), ?w1)" by (simp add: os_Stat_def Some)
    show ?thesis
    proof (cases "?p \<in> denied w")
      case True
      then show ?thesis
        by (intro exI[of _ 0]) (simp add: st Some os_Stat_def ioutil_WriteFile_def emit_def)
    next
      case False
      let ?w2 = "emit (EvWriteFile ?p) (?w1\<lparr>files := (files ?w1)(?p \<mapsto> f\<lparr>Data := ManifestBytes u\<rparr>)\<rparr>)"
      have wr: "ioutil_WriteFile ?p (ManifestBytes u) (Mode f) ?w1 = (None, ?w2)"
        using False Some by (simp add: ioutil_WriteFile_def emit_def)
      have step: "writeEach (u # us) w = writeEach us ?w2" by (simp add: st wr)
      have f2: "files ?w2 = overwrite u (files w)"
        by (simp add: emit_def overwrite_def Some)
      have d2: "denied ?w2 = denied w" by (simp add: emit_def)
      from Cons.IH[of ?w2] obtain n where n: "n \<le> length us"
        and a: "files (snd (writeEach us ?w2)) = fold overwrite (take n us) (files ?w2)"
        and b: "denied (snd (writeEach us ?w2)) = denied ?w2"
        and c: "\<forall>u \<in> set (take n us). files ?w2 (ManifestPath u) \<noteq> None \<and> ManifestPath u \<notin> denied ?w2"
        and d: "n = length us \<longrightarrow> fst (writeEach us ?w2) = None"
        and e: "n < length us \<longrightarrow>
          (files ?w2 (ManifestPath (us ! n)) = None \<or> ManifestPath (us ! n) \<in> denied ?w2)
        \<and> (\<exists>e. fst (writeEach us ?w2) = Some e
              \<and> (fst (os_Stat (ManifestPath (us ! n)) (snd (writeEach us ?w2))) = Inl e
                  \<or> (\<exists>m. fst (os_Stat (ManifestPath (us ! n)) (snd (writeEach us ?w2))) = Inr m
                        \<and> fst (ioutil_WriteFile (ManifestPath (us ! n)) (ManifestBytes (us ! n)) m
                                 (snd (writeEach us ?w2))) = Some e)))"
        by blast
      have none_iff: "\<And>q. files ?w2 q = None \<longleftrightarrow> files w q = None"
        unfolding f2 using overwrite_dom[of u "files w"] by (metis domIff)
      have c': "\<forall>v \<in> set (take (Suc n) (u # us)). files w (ManifestPath v) \<noteq> None \<and> ManifestPath v \<notin> denied w"
        using c False Some unfolding d2 none_iff by simp
      have e': "Suc n < length (u # us) \<longrightarrow>
          (files w (ManifestPath ((u # us) ! Suc n)) = None \<or> ManifestPath ((u # us) ! Suc n) \<in> denied w)
        \<and> (\<exists>e. fst (writeEach (u # us) w) = Some e
              \<and> (fst (os_Stat (ManifestPath ((u # us) ! Suc n)) (snd (writeEach (u # us) w))) = Inl e
                  \<or> (\<exists>m. fst (os_Stat (ManifestPath ((u # us) ! Suc n)) (snd (writeEach (u # us) w))) = Inr m
                        \<and> fst (ioutil_WriteFile (ManifestPath ((u # us) ! Suc n)) (ManifestBytes ((u # us) ! Suc n)) m
                                 (snd (writeEach (u # us) w))) = Some e)))"
        using e unfolding step d2 none_iff by simp
      show ?thesis
        apply (rule exI[of _ "Suc n"])
        apply (intro conjI)
        subgoal using n by simp
        subgoal unfolding step a f2 by simp
        subgoal unfolding step b d2 by simp
        subgoal by (rule c')
        subgoal using d unfolding step by simp
        subgoal by (rule e')
        done
    qed
  qed
qed

text \<open>
  Where the loop of \<^verbatim>\<open>FindDefinedServices\<close> stops when some resource has more than one
  path: at the first entry that has a number of paths other than one or whose manifest
  cannot be read; every entry before it has one path and a manifest that is read.
\<close>

lemma readDefined_bad:
  "(rid, paths) \<in> set services \<Longrightarrow> length paths \<noteq> 1 \<Longrightarrow>
     \<exists>i e. i < length services
        \<and> fst (readDefined services acc w) = Inl e
        \<and> (\<forall>j < i. \<exists>p. snd (services ! j) = [p] \<and> files w p \<noteq> None)
        \<and> ((length (snd (services ! i)) \<noteq> 1
               \<and> e = MultipleResourceFiles (fst (services ! i)) (snd (services ! i)))
           \<or> (\<exists>p. snd (services ! i) = [p] \<and> files w p = None
               \<and> fst (ioutil_ReadFile p w) = Inl e))"
proof (induction services arbitrary: acc w)
  case Nil
  then show ?case by simp
next
  case (Cons x services)
  obtain r ps where x: "x = (r, ps)" by (cases x)
  show ?case
  proof (cases "length ps = 1")
    case False
    then have "readDefined (x # services) acc w = (Inl (MultipleResourceFiles r ps), w)"
      unfolding x by (cases ps rule: list.exhaust; cases "tl ps") auto
    with False show ?thesis
      by (intro exI[of _ 0] exI[of _ "MultipleResourceFiles r ps"]) (simp add: x)
  next
    case True
    then obtain p where ps: "ps = [p]" by (cases ps) auto
    show ?thesis
    proof (cases "files w p")
      case None
      then obtain e where e: "fst (ioutil_ReadFile p w) = Inl e"
        "fst (readDefined (x # services) acc w) = Inl e"
        by (simp add: x ps ioutil_ReadFile_def)
      with None show ?thesis
        by (intro exI[of _ 0] exI[of _ e]) (simp add: x ps)
    next
      case (Some f)
      let ?w1 = "emit (EvReadFile p) w"
      let ?acc1 = "acc @ [\<lparr>ResourceID = r, Controller = zeroController,
                            ManifestPath = p, ManifestBytes = Data f, Updates = []\<rparr>]"
      have step: "readDefined (x # services) acc w = readDefined services ?acc1 ?w1"
        by (simp add: x ps ioutil_ReadFile_def Some)
      from Cons.prems ps x have inrest: "(rid, paths) \<in> set services" by auto
      have same: "\<And>q. files ?w1 q = files w q"
        "\<And>q. fst (ioutil_ReadFile q ?w1) = fst (ioutil_ReadFile q w)"
        by (simp_all add: emit_def ioutil_ReadFile_def split: option.split)
      from Cons.IH[OF inrest Cons.prems(2), of ?acc1 ?w1] obtain i e where
        i: "i < length services" and
        e: "fst (readDefined services ?acc1 ?w1) = Inl e" and
        before: "\<forall>j < i. \<exists>p. snd (services ! j) = [p] \<and> files w p \<noteq> None" and
        alt: "(length (snd (services ! i)) \<noteq> 1
               \<and> e = MultipleResourceFiles (fst (services ! i)) (snd (services ! i)))
           \<or> (\<exists>p. snd (services ! i) = [p] \<and> files w p = None
               \<and> fst (ioutil_ReadFile p w) = Inl e)"
        unfolding same by blast
      have before': "\<forall>j < Suc i. \<exists>p. snd ((x # services) ! j) = [p] \<and> files w p \<noteq> None"
      proof (intro allI impI)
        fix j assume j: "j < Suc i"
        show "\<exists>p. snd ((x # services) ! j) = [p] \<and> files w p \<noteq> None"
        proof (cases j)
          case 0
          then show ?thesis using Some by (simp add: x ps)
        next
          case (Suc k)
          with j have "k < i" by simp
          with before Suc show ?thesis by simp
        qed
      qed
      show ?thesis
        apply (rule exI[of _ "Suc i"], rule exI[of _ e])
        apply (intro conjI)
        subgoal using i by simp
        subgoal using e step by simp
        subgoal by (rule before')
        subgoal using alt by simp
        done
    qed
  qed
qed

section \<open>The parsing loops of the handler\<close>

lemma parseServiceSpecs_fail:
  "\<exists>s \<in> set xs. isl (update_ParseResourceSpec ps s) \<Longrightarrow> isl (parseServiceSpecs ps xs acc)"
  by (induction xs arbitrary: acc) (auto split: sum.splits)

lemma parseServiceSpecs_ok:
  "parseServiceSpecs ps xs acc = Inr specs \<Longrightarrow>
     (\<forall>s \<in> set xs. \<not> isl (update_ParseResourceSpec ps s))
     \<and> specs = acc @ map (\<lambda>s. projr (update_ParseResourceSpec ps s)) xs"
proof (induction xs arbitrary: acc)
  case Nil
  then show ?case by simp
next
  case (Cons a xs)
  show ?case
  proof (cases "update_ParseResourceSpec ps a")
    case (Inl e)
    with Cons.prems show ?thesis by simp
  next
    case (Inr v)
    with Cons.prems have "parseServiceSpecs ps xs (acc @ [v]) = Inr specs" by simp
    from Cons.IH[OF this] Inr show ?thesis by simp
  qed
qed

lemma parseExcludes_fail:
  "\<exists>s \<in> set xs. isl (flux_ParseResourceID ps s) \<Longrightarrow> isl (parseExcludes ps xs acc)"
  by (induction xs arbitrary: acc) (auto split: sum.splits)

lemma parseExcludes_ok:
  "parseExcludes ps xs acc = Inr ids \<Longrightarrow>
     (\<forall>s \<in> set xs. \<not> isl (flux_ParseResourceID ps s))
     \<and> ids = acc @ map (\<lambda>s. projr (flux_ParseResourceID ps s)) xs"
proof (induction xs arbitrary: acc)
  case Nil
  then show ?case by simp
next
  case (Cons a xs)
  show ?case
  proof (cases "flux_ParseResourceID ps a")
    case (Inl e)
    with Cons.prems show ?thesis by simp
  next
    case (Inr v)
    with Cons.prems have "parseExcludes ps xs (acc @ [v]) = Inr ids" by simp
    from Cons.IH[OF this] Inr show ?thesis by simp
  qed
qed

section \<open>Running the model on the small repository\<close>

lemmas status_defs = ReleaseStatusSuccess_def ReleaseStatusFailed_def ReleaseStatusSkipped_def
  ReleaseStatusIgnored_def NotInCluster_def zeroController_def
  notInClusterResult_def passes_def

lemmas run_defs = SelectServices_def FindDefinedServices_def repo_ManifestDir_def emit_def
  ioutil_ReadFile_def definedMapOf_def Let_def

lemmas ex_defs = ex_rc_def ex_world_def ex_defined_def ex_services_def ex_b_running_def
  ex_exclude_def ex_locked_def ex_failing_def

lemma ex_FindDefinedServices: "fst (FindDefinedServices ex_rc ex_world) = Inr ex_defined"
  by (simp add: run_defs ex_defs status_defs)

lemma ex_SomeControllers: "cluster_SomeControllers ex_rc ids = Inr ex_services"
  by (simp add: ex_defs)

lemma ex_distinct: "distinct (map ResourceID ex_defined)"
  by (simp add: ex_defs)

section \<open>The properties\<close>

text \<open>
  C1. Whenever \<^verbatim>\<open>SelectServices\<close> returns without error, every workload that
  \<^verbatim>\<open>FindDefinedServices\<close> enumerates has an entry in the Result. A workload that is defined
  and running maps to the verdict of the filters on it, run with the snapshot of the
  first controller reported under its id attached; a workload that is defined and not
  running maps to a verdict as well, the filters' own or "not in cluster". The ids of
  \<open>defined\<close> are the keys of a Go map, hence distinct.
\<close>

theorem SelectServices_total_result:
  assumes "SelectServices flt rc results filters w = (Inr updates, results', w')"
  shows "\<exists>defined services.
           fst (FindDefinedServices rc w) = Inr defined
         \<and> cluster_SomeControllers rc (map ResourceID defined) = Inr services
         \<and> (\<forall>s \<in> set defined. results' (ResourceID s) \<noteq> None)
         \<and> (distinct (map ResourceID defined) \<longrightarrow>
              (\<forall>s \<in> set defined.
                  (\<forall>c. find (\<lambda>c. ID c = ResourceID s) services = Some c
                      \<longrightarrow> results' (ResourceID s) = Some (flt (s\<lparr>Controller := c\<rparr>) filters))
                \<and> (find (\<lambda>c. ID c = ResourceID s) services = None
                      \<longrightarrow> results' (ResourceID s) = Some (flt s filters)
                        \<or> results' (ResourceID s) = Some notInClusterResult)))"
proof -
  from SelectServices_succeeds[OF assms] obtain defined services where
    a: "fst (FindDefinedServices rc w) = Inr defined" and
    b: "cluster_SomeControllers rc (map ResourceID defined) = Inr services"
    by blast
  note facts = SelectServices_defined_facts[OF assms a b]
  have c: "\<forall>s \<in> set defined. results' (ResourceID s) \<noteq> None"
    using facts(1) by blast
  have e: "distinct (map ResourceID defined) \<longrightarrow>
              (\<forall>s \<in> set defined.
                  (\<forall>c. find (\<lambda>c. ID c = ResourceID s) services = Some c
                      \<longrightarrow> results' (ResourceID s) = Some (flt (s\<lparr>Controller := c\<rparr>) filters))
                \<and> (find (\<lambda>c. ID c = ResourceID s) services = None
                      \<longrightarrow> results' (ResourceID s) = Some (flt s filters)
                        \<or> results' (ResourceID s) = Some notInClusterResult))"
  proof (intro impI ballI conjI allI)
    fix s c
    assume "distinct (map ResourceID defined)" "s \<in> set defined"
      "find (\<lambda>c. ID c = ResourceID s) services = Some c"
    then show "results' (ResourceID s) = Some (flt (s\<lparr>Controller := c\<rparr>) filters)"
      by (rule facts(3))
  next
    fix s
    assume "distinct (map ResourceID defined)" "s \<in> set defined"
      "find (\<lambda>c. ID c = ResourceID s) services = None"
    then have "results' (ResourceID s) = Some (if Status (flt s filters) \<noteq> ReleaseStatusIgnored
                                                        then notInClusterResult else flt s filters)"
      by (rule facts(5))
    then show "results' (ResourceID s) = Some (flt s filters)
                 \<or> results' (ResourceID s) = Some notInClusterResult"
      by (cases "Status (flt s filters) \<noteq> ReleaseStatusIgnored") simp_all
  qed
  show ?thesis
    by (rule exI[of _ defined], rule exI[of _ services], intro conjI) (rule a b c e)+
qed

text \<open>On the small repository each of a, b and c has an entry.\<close>

theorem SelectServices_total_result_witness:
  "fst (SelectServices Filter ex_rc Map.empty [ex_locked ''default:deployment/a''] ex_world)
     = Inr [ex_b_running]
   \<and> fst (snd (SelectServices Filter ex_rc Map.empty [ex_locked ''default:deployment/a''] ex_world))
        ''default:deployment/a'' \<noteq> None
   \<and> fst (snd (SelectServices Filter ex_rc Map.empty [ex_locked ''default:deployment/a''] ex_world))
        ''default:deployment/b'' \<noteq> None
   \<and> fst (snd (SelectServices Filter ex_rc Map.empty [ex_locked ''default:deployment/a''] ex_world))
        ''default:deployment/c'' \<noteq> None"
proof -
  let ?X = "SelectServices Filter ex_rc Map.empty [ex_locked ''default:deployment/a''] ex_world"
  have ev: "fst ?X = Inr [ex_b_running]"
    by (simp add: run_defs ex_defs status_defs)
  from SelectServices_total_result[OF triple_eq[OF ev]] obtain defined where
    "fst (FindDefinedServices ex_rc ex_world) = Inr defined"
    "\<forall>s \<in> set defined. fst (snd ?X) (ResourceID s) \<noteq> None"
    by blast
  then have "\<forall>s \<in> set ex_defined. fst (snd ?X) (ResourceID s) \<noteq> None"
    by (simp add: ex_FindDefinedServices)
  then show ?thesis using ev by (simp add: ex_defined_def)
qed

text \<open>
  C2, amended. A workload that is defined and is not reported by \<^verbatim>\<open>SomeControllers\<close> gets the
  status SKIPPED with the reason "not in cluster", unless the filters return IGNORED for
  it: line 114 keeps it out of \<^verbatim>\<open>filteredDefined\<close>, and its entry is that IGNORED
  verdict. A controller that is reported running and is not defined is passed over: no
  update is returned for it, and the entry of its id in the Result map is what it was
  before the call.
\<close>

theorem SelectServices_correlation:
  assumes "SelectServices flt rc results filters w = (Inr updates, results', w')"
  shows "\<exists>defined services.
           fst (FindDefinedServices rc w) = Inr defined
         \<and> cluster_SomeControllers rc (map ResourceID defined) = Inr services
         \<and> (distinct (map ResourceID defined) \<longrightarrow>
              (\<forall>s \<in> set defined.
                  find (\<lambda>c. ID c = ResourceID s) services = None
                  \<longrightarrow> (Status (flt s filters) \<noteq> ReleaseStatusIgnored
                         \<longrightarrow> results' (ResourceID s) = Some notInClusterResult)
                    \<and> (Status (flt s filters) = ReleaseStatusIgnored
                         \<longrightarrow> results' (ResourceID s) = Some (flt s filters))))
         \<and> (\<forall>c \<in> set services. ID c \<notin> ResourceID ` set defined
              \<longrightarrow> results' (ID c) = results (ID c) \<and> (\<forall>u \<in> set updates. ResourceID u \<noteq> ID c))"
proof -
  from SelectServices_succeeds[OF assms] obtain defined services where
    a: "fst (FindDefinedServices rc w) = Inr defined" and
    b: "cluster_SomeControllers rc (map ResourceID defined) = Inr services"
    by blast
  note facts = SelectServices_facts[OF assms a b]
  note dfacts = SelectServices_defined_facts[OF assms a b]
  have e: "distinct (map ResourceID defined) \<longrightarrow>
              (\<forall>s \<in> set defined.
                  find (\<lambda>c. ID c = ResourceID s) services = None
                  \<longrightarrow> (Status (flt s filters) \<noteq> ReleaseStatusIgnored
                         \<longrightarrow> results' (ResourceID s) = Some notInClusterResult)
                    \<and> (Status (flt s filters) = ReleaseStatusIgnored
                         \<longrightarrow> results' (ResourceID s) = Some (flt s filters)))"
  proof (intro impI ballI)
    fix s
    assume "distinct (map ResourceID defined)" "s \<in> set defined"
      "find (\<lambda>c. ID c = ResourceID s) services = None"
    from dfacts(5)[OF this]
    show "(Status (flt s filters) \<noteq> ReleaseStatusIgnored
                         \<longrightarrow> results' (ResourceID s) = Some notInClusterResult)
                    \<and> (Status (flt s filters) = ReleaseStatusIgnored
                         \<longrightarrow> results' (ResourceID s) = Some (flt s filters))"
      by simp
  qed
  have f: "\<forall>c \<in> set services. ID c \<notin> ResourceID ` set defined
              \<longrightarrow> results' (ID c) = results (ID c) \<and> (\<forall>u \<in> set updates. ResourceID u \<noteq> ID c)"
  proof (intro ballI impI conjI)
    fix c assume "c \<in> set services" and n: "ID c \<notin> ResourceID ` set defined"
    from facts(1)[OF n] show "results' (ID c) = results (ID c)" .
    fix u assume "u \<in> set updates"
    from facts(3)[OF this] obtain d where "(ResourceID u, d) \<in> set (definedMapOf defined)"
      by blast
    then have "ResourceID u \<in> fst ` set (definedMapOf defined)" by (metis fst_conv rev_image_eqI)
    then have "ResourceID u \<in> ResourceID ` set defined" by (simp only: keys_definedMapOf)
    with n show "ResourceID u \<noteq> ID c" by metis
  qed
  show ?thesis
    by (rule exI[of _ defined], rule exI[of _ services], intro conjI) (rule a b e f)+
qed

text \<open>
  With c excluded and a lock on a, neither of them running: a is marked "not in cluster",
  c keeps its IGNORED verdict, and z, running and not defined, gets no entry.
\<close>

theorem SelectServices_correlation_witness:
  "fst (SelectServices Filter ex_rc Map.empty
          [ex_exclude ''default:deployment/c'', ex_locked ''default:deployment/a''] ex_world)
     = Inr [ex_b_running]
   \<and> Status (Filter (ex_defined ! 0)
               [ex_exclude ''default:deployment/c'', ex_locked ''default:deployment/a''])
        \<noteq> ReleaseStatusIgnored
   \<and> Status (Filter (ex_defined ! 2)
               [ex_exclude ''default:deployment/c'', ex_locked ''default:deployment/a''])
        = ReleaseStatusIgnored
   \<and> fst (snd (SelectServices Filter ex_rc Map.empty
          [ex_exclude ''default:deployment/c'', ex_locked ''default:deployment/a''] ex_world))
        ''default:deployment/a'' = Some notInClusterResult
   \<and> fst (snd (SelectServices Filter ex_rc Map.empty
          [ex_exclude ''default:deployment/c'', ex_locked ''default:deployment/a''] ex_world))
        ''default:deployment/c''
        = Some \<lparr>Status = ReleaseStatusIgnored, Error = ''excluded'', PerContainer = []\<rparr>
   \<and> fst (snd (SelectServices Filter ex_rc Map.empty
          [ex_exclude ''default:deployment/c'', ex_locked ''default:deployment/a''] ex_world))
        ''default:deployment/z'' = None"
proof -
  let ?fs = "[ex_exclude ''default:deployment/c'', ex_locked ''default:deployment/a'']"
  let ?X = "SelectServices Filter ex_rc Map.empty ?fs ex_world"
  have ev: "fst ?X = Inr [ex_b_running]"
    by (simp add: run_defs ex_defs status_defs)
  from SelectServices_correlation[OF triple_eq[OF ev]] obtain defined services where
    h1: "fst (FindDefinedServices ex_rc ex_world) = Inr defined" and
    h2: "cluster_SomeControllers ex_rc (map ResourceID defined) = Inr services" and
    h3: "distinct (map ResourceID defined) \<longrightarrow>
              (\<forall>s \<in> set defined.
                  find (\<lambda>c. ID c = ResourceID s) services = None
                  \<longrightarrow> (Status (Filter s ?fs) \<noteq> ReleaseStatusIgnored
                         \<longrightarrow> fst (snd ?X) (ResourceID s) = Some notInClusterResult)
                    \<and> (Status (Filter s ?fs) = ReleaseStatusIgnored
                         \<longrightarrow> fst (snd ?X) (ResourceID s) = Some (Filter s ?fs)))" and
    h4: "\<forall>c \<in> set services. ID c \<notin> ResourceID ` set defined
              \<longrightarrow> fst (snd ?X) (ID c) = Map.empty (ID c) \<and> (\<forall>u \<in> set [ex_b_running]. ResourceID u \<noteq> ID c)"
    by (elim exE conjE) (rule that)
  from h1 have d: "defined = ex_defined" by (simp add: ex_FindDefinedServices)
  from h2 have s: "services = ex_services" by (simp add: ex_SomeControllers)
  have ni: "Status (Filter (ex_defined ! 0) ?fs) \<noteq> ReleaseStatusIgnored"
    by (simp add: ex_defs status_defs)
  have ig: "Status (Filter (ex_defined ! 2) ?fs) = ReleaseStatusIgnored"
    by (simp add: ex_defs status_defs)
  have a: "fst (snd ?X) ''default:deployment/a'' = Some notInClusterResult"
    using h3 unfolding d s by (simp add: ex_defs status_defs)
  have c: "fst (snd ?X) ''default:deployment/c''
             = Some \<lparr>Status = ReleaseStatusIgnored, Error = ''excluded'', PerContainer = []\<rparr>"
    using h3 unfolding d s by (simp add: ex_defs status_defs)
  have z: "fst (snd ?X) ''default:deployment/z'' = None"
    using h4 unfolding d s by (simp add: ex_defined_def ex_services_def)
  from ev ni ig a c z show ?thesis by (intro conjI)
qed

text \<open>
  Without the exception the property fails: c is defined, is not running and is excluded,
  and its entry is the IGNORED verdict, not SKIPPED "not in cluster".
\<close>

theorem SelectServices_correlation_counterexample:
  "fst (FindDefinedServices ex_rc ex_world) = Inr ex_defined
   \<and> cluster_SomeControllers ex_rc (map ResourceID ex_defined) = Inr ex_services
   \<and> ''default:deployment/c'' \<in> set (map ResourceID ex_defined)
   \<and> ''default:deployment/c'' \<notin> set (map ID ex_services)
   \<and> fst (SelectServices Filter ex_rc Map.empty [ex_exclude ''default:deployment/c''] ex_world)
        = Inr [ex_b_running]
   \<and> fst (snd (SelectServices Filter ex_rc Map.empty [ex_exclude ''default:deployment/c''] ex_world))
        ''default:deployment/c''
        = Some \<lparr>Status = ReleaseStatusIgnored, Error = ''excluded'', PerContainer = []\<rparr>
   \<and> Some \<lparr>Status = ReleaseStatusIgnored, Error = ''excluded'', PerContainer = []\<rparr>
        \<noteq> Some \<lparr>Status = ReleaseStatusSkipped, Error = NotInCluster, PerContainer = []\<rparr>"
  by (simp add: run_defs ex_defs status_defs)

text \<open>
  C3, amended. A workload for which the filters return IGNORED is left out of the
  returned updates, and its id keeps an entry in the Result, the IGNORED verdict itself:
  lines 103 and 113 store every verdict and nothing in \<^verbatim>\<open>SelectServices\<close> deletes an entry.
  A workload that is defined and running keeps the verdict of the filters whatever its
  status, SKIPPED and FAILED included.
\<close>

theorem SelectServices_ignored_recorded:
  assumes "SelectServices flt rc results filters w = (Inr updates, results', w')"
  shows "\<exists>defined services.
           fst (FindDefinedServices rc w) = Inr defined
         \<and> cluster_SomeControllers rc (map ResourceID defined) = Inr services
         \<and> (distinct (map ResourceID defined) \<longrightarrow>
              (\<forall>s \<in> set defined.
                  (\<forall>c. find (\<lambda>c. ID c = ResourceID s) services = Some c
                      \<longrightarrow> results' (ResourceID s) = Some (flt (s\<lparr>Controller := c\<rparr>) filters)
                        \<and> (Status (flt (s\<lparr>Controller := c\<rparr>) filters) = ReleaseStatusIgnored
                              \<longrightarrow> (\<forall>u \<in> set updates. ResourceID u \<noteq> ResourceID s)))
                \<and> (find (\<lambda>c. ID c = ResourceID s) services = None
                      \<longrightarrow> Status (flt s filters) = ReleaseStatusIgnored
                      \<longrightarrow> results' (ResourceID s) = Some (flt s filters)
                        \<and> (\<forall>u \<in> set updates. ResourceID u \<noteq> ResourceID s))))"
proof -
  from SelectServices_succeeds[OF assms] obtain defined services where
    a: "fst (FindDefinedServices rc w) = Inr defined" and
    b: "cluster_SomeControllers rc (map ResourceID defined) = Inr services"
    by blast
  note facts = SelectServices_facts[OF assms a b]
  note dfacts = SelectServices_defined_facts[OF assms a b]
  have e: "distinct (map ResourceID defined) \<longrightarrow>
              (\<forall>s \<in> set defined.
                  (\<forall>c. find (\<lambda>c. ID c = ResourceID s) services = Some c
                      \<longrightarrow> results' (ResourceID s) = Some (flt (s\<lparr>Controller := c\<rparr>) filters)
                        \<and> (Status (flt (s\<lparr>Controller := c\<rparr>) filters) = ReleaseStatusIgnored
                              \<longrightarrow> (\<forall>u \<in> set updates. ResourceID u \<noteq> ResourceID s)))
                \<and> (find (\<lambda>c. ID c = ResourceID s) services = None
                      \<longrightarrow> Status (flt s filters) = ReleaseStatusIgnored
                      \<longrightarrow> results' (ResourceID s) = Some (flt s filters)
                        \<and> (\<forall>u \<in> set updates. ResourceID u \<noteq> ResourceID s)))"
  proof (intro impI ballI conjI allI)
    fix s c
    assume di: "distinct (map ResourceID defined)" and s: "s \<in> set defined"
      and fc: "find (\<lambda>c. ID c = ResourceID s) services = Some c"
    from dfacts(3)[OF di s fc]
    show "results' (ResourceID s) = Some (flt (s\<lparr>Controller := c\<rparr>) filters)" .
    fix u
    assume ig: "Status (flt (s\<lparr>Controller := c\<rparr>) filters) = ReleaseStatusIgnored"
      and u: "u \<in> set updates"
    show "ResourceID u \<noteq> ResourceID s"
    proof
      assume eq: "ResourceID u = ResourceID s"
      from dfacts(2)[OF di u] obtain s' c' where sc: "s' \<in> set defined"
        "find (\<lambda>c. ID c = ResourceID s') services = Some c'" "u = s'\<lparr>Controller := c'\<rparr>"
        by blast
      from sc(3) eq have "ResourceID s' = ResourceID s" by simp
      from distinct_map_eq[OF di sc(1) s this] have s': "s' = s" .
      with sc(2) fc have "c' = c" by simp
      with sc(3) s' have "u = s\<lparr>Controller := c\<rparr>" by simp
      with facts(2)[OF u] Ignored_not_passes[OF ig] show False by simp
    qed
  next
    fix s
    assume di: "distinct (map ResourceID defined)" and s: "s \<in> set defined"
      and fc: "find (\<lambda>c. ID c = ResourceID s) services = None"
      and ig: "Status (flt s filters) = ReleaseStatusIgnored"
    from dfacts(5)[OF di s fc] ig
    show "results' (ResourceID s) = Some (flt s filters)" by simp
    fix u assume "u \<in> set updates"
    from dfacts(6)[OF s fc this] show "ResourceID u \<noteq> ResourceID s" .
  qed
  show ?thesis
    by (rule exI[of _ defined], rule exI[of _ services], intro conjI) (rule a b e)+
qed

text \<open>
  With c excluded and a filter that fails everything else: c, not running, keeps IGNORED,
  and b, running, keeps FAILED.
\<close>

theorem SelectServices_ignored_recorded_witness:
  "fst (SelectServices Filter ex_rc Map.empty
          [ex_exclude ''default:deployment/c'', ex_failing] ex_world) = Inr []
   \<and> Status (Filter (ex_defined ! 2) [ex_exclude ''default:deployment/c'', ex_failing])
        = ReleaseStatusIgnored
   \<and> fst (snd (SelectServices Filter ex_rc Map.empty
          [ex_exclude ''default:deployment/c'', ex_failing] ex_world)) ''default:deployment/c''
        = Some \<lparr>Status = ReleaseStatusIgnored, Error = ''excluded'', PerContainer = []\<rparr>
   \<and> fst (snd (SelectServices Filter ex_rc Map.empty
          [ex_exclude ''default:deployment/c'', ex_failing] ex_world)) ''default:deployment/b''
        = Some \<lparr>Status = ReleaseStatusFailed, Error = ''no image satisfies pattern'', PerContainer = []\<rparr>"
proof -
  let ?fs = "[ex_exclude ''default:deployment/c'', ex_failing]"
  let ?X = "SelectServices Filter ex_rc Map.empty ?fs ex_world"
  have ev: "fst ?X = Inr []"
    by (simp add: run_defs ex_defs status_defs)
  from SelectServices_ignored_recorded[OF triple_eq[OF ev]] obtain defined services where
    h1: "fst (FindDefinedServices ex_rc ex_world) = Inr defined" and
    h2: "cluster_SomeControllers ex_rc (map ResourceID defined) = Inr services" and
    h3: "distinct (map ResourceID defined) \<longrightarrow>
              (\<forall>s \<in> set defined.
                  (\<forall>c. find (\<lambda>c. ID c = ResourceID s) services = Some c
                      \<longrightarrow> fst (snd ?X) (ResourceID s) = Some (Filter (s\<lparr>Controller := c\<rparr>) ?fs)
                        \<and> (Status (Filter (s\<lparr>Controller := c\<rparr>) ?fs) = ReleaseStatusIgnored
                              \<longrightarrow> (\<forall>u \<in> set ([]::ControllerUpdate list). ResourceID u \<noteq> ResourceID s)))
                \<and> (find (\<lambda>c. ID c = ResourceID s) services = None
                      \<longrightarrow> Status (Filter s ?fs) = ReleaseStatusIgnored
                      \<longrightarrow> fst (snd ?X) (ResourceID s) = Some (Filter s ?fs)
                        \<and> (\<forall>u \<in> set ([]::ControllerUpdate list). ResourceID u \<noteq> ResourceID s)))"
    by (elim exE conjE) (rule that)
  from h1 have d: "defined = ex_defined" by (simp add: ex_FindDefinedServices)
  from h2 have s: "services = ex_services" by (simp add: ex_SomeControllers)
  have ig: "Status (Filter (ex_defined ! 2) ?fs) = ReleaseStatusIgnored"
    by (simp add: ex_defs status_defs)
  have c: "fst (snd ?X) ''default:deployment/c''
             = Some \<lparr>Status = ReleaseStatusIgnored, Error = ''excluded'', PerContainer = []\<rparr>"
    using h3 unfolding d s by (simp add: ex_defs status_defs)
  have b: "fst (snd ?X) ''default:deployment/b''
             = Some \<lparr>Status = ReleaseStatusFailed, Error = ''no image satisfies pattern'', PerContainer = []\<rparr>"
    using h3 unfolding d s by (simp add: ex_defs status_defs)
  from ev ig c b show ?thesis by simp
qed

text \<open>
  As first stated (no entry for an IGNORED workload) the property fails: b is defined and
  running, the filters return IGNORED for it, and the Result has an entry for b.
\<close>

theorem SelectServices_ignored_recorded_counterexample:
  "fst (FindDefinedServices ex_rc ex_world) = Inr ex_defined
   \<and> ''default:deployment/b'' \<in> set (map ResourceID ex_defined)
   \<and> ''default:deployment/b'' \<in> set (map ID ex_services)
   \<and> Filter ex_b_running [ex_exclude ''default:deployment/b'']
        = \<lparr>Status = ReleaseStatusIgnored, Error = ''excluded'', PerContainer = []\<rparr>
   \<and> fst (SelectServices Filter ex_rc Map.empty [ex_exclude ''default:deployment/b''] ex_world)
        = Inr []
   \<and> fst (snd (SelectServices Filter ex_rc Map.empty [ex_exclude ''default:deployment/b''] ex_world))
        ''default:deployment/b''
        = Some \<lparr>Status = ReleaseStatusIgnored, Error = ''excluded'', PerContainer = []\<rparr>
   \<and> fst (snd (SelectServices Filter ex_rc Map.empty [ex_exclude ''default:deployment/b''] ex_world))
        ''default:deployment/b'' \<noteq> None"
  by (simp add: run_defs ex_defs status_defs)

text \<open>
  C4, amended. For a workload that is defined and running, the verdict recorded in the
  Result is the result of the first filter, in the order given, that returns a status
  other than SUCCESS, and is SUCCESS when every filter returns SUCCESS. For a workload
  that is defined and not running the verdict so determined is recorded only when its
  status is IGNORED, and SKIPPED "not in cluster" is recorded otherwise.
\<close>

theorem SelectServices_filter_precedence:
  assumes "SelectServices Filter rc results filters w = (Inr updates, results', w')"
  shows "\<exists>defined services.
           fst (FindDefinedServices rc w) = Inr defined
         \<and> cluster_SomeControllers rc (map ResourceID defined) = Inr services
         \<and> (distinct (map ResourceID defined) \<longrightarrow>
              (\<forall>s \<in> set defined.
                  (\<forall>c. find (\<lambda>c. ID c = ResourceID s) services = Some c
                     \<longrightarrow> (\<forall>f. find (\<lambda>f. Status (f (s\<lparr>Controller := c\<rparr>)) \<noteq> ReleaseStatusSuccess) filters = Some f
                             \<longrightarrow> results' (ResourceID s) = Some (f (s\<lparr>Controller := c\<rparr>)))
                       \<and> (find (\<lambda>f. Status (f (s\<lparr>Controller := c\<rparr>)) \<noteq> ReleaseStatusSuccess) filters = None
                             \<longrightarrow> (\<exists>v. results' (ResourceID s) = Some v \<and> Status v = ReleaseStatusSuccess)))
                \<and> (find (\<lambda>c. ID c = ResourceID s) services = None
                     \<longrightarrow> (\<forall>f. find (\<lambda>f. Status (f s) \<noteq> ReleaseStatusSuccess) filters = Some f
                             \<longrightarrow> results' (ResourceID s)
                                   = Some (if Status (f s) = ReleaseStatusIgnored then f s
                                           else notInClusterResult))
                       \<and> (find (\<lambda>f. Status (f s) \<noteq> ReleaseStatusSuccess) filters = None
                             \<longrightarrow> results' (ResourceID s) = Some notInClusterResult))))"
proof -
  from SelectServices_succeeds[OF assms] obtain defined services where
    a: "fst (FindDefinedServices rc w) = Inr defined" and
    b: "cluster_SomeControllers rc (map ResourceID defined) = Inr services"
    by blast
  note dfacts = SelectServices_defined_facts[OF assms a b]
  have zi: "ReleaseStatusSuccess \<noteq> ReleaseStatusIgnored"
    by (simp add: status_defs)
  have e: "distinct (map ResourceID defined) \<longrightarrow>
              (\<forall>s \<in> set defined.
                  (\<forall>c. find (\<lambda>c. ID c = ResourceID s) services = Some c
                     \<longrightarrow> (\<forall>f. find (\<lambda>f. Status (f (s\<lparr>Controller := c\<rparr>)) \<noteq> ReleaseStatusSuccess) filters = Some f
                             \<longrightarrow> results' (ResourceID s) = Some (f (s\<lparr>Controller := c\<rparr>)))
                       \<and> (find (\<lambda>f. Status (f (s\<lparr>Controller := c\<rparr>)) \<noteq> ReleaseStatusSuccess) filters = None
                             \<longrightarrow> (\<exists>v. results' (ResourceID s) = Some v \<and> Status v = ReleaseStatusSuccess)))
                \<and> (find (\<lambda>c. ID c = ResourceID s) services = None
                     \<longrightarrow> (\<forall>f. find (\<lambda>f. Status (f s) \<noteq> ReleaseStatusSuccess) filters = Some f
                             \<longrightarrow> results' (ResourceID s)
                                   = Some (if Status (f s) = ReleaseStatusIgnored then f s
                                           else notInClusterResult))
                       \<and> (find (\<lambda>f. Status (f s) \<noteq> ReleaseStatusSuccess) filters = None
                             \<longrightarrow> results' (ResourceID s) = Some notInClusterResult)))"
  proof (intro impI ballI conjI allI)
    fix s c f
    assume di: "distinct (map ResourceID defined)" and s: "s \<in> set defined"
      and fc: "find (\<lambda>c. ID c = ResourceID s) services = Some c"
      and ff: "find (\<lambda>f. Status (f (s\<lparr>Controller := c\<rparr>)) \<noteq> ReleaseStatusSuccess) filters = Some f"
    from dfacts(3)[OF di s fc] Filter_first[OF ff]
    show "results' (ResourceID s) = Some (f (s\<lparr>Controller := c\<rparr>))"
      by simp
  next
    fix s c
    assume di: "distinct (map ResourceID defined)" and s: "s \<in> set defined"
      and fc: "find (\<lambda>c. ID c = ResourceID s) services = Some c"
      and ff: "find (\<lambda>f. Status (f (s\<lparr>Controller := c\<rparr>)) \<noteq> ReleaseStatusSuccess) filters = None"
    from dfacts(3)[OF di s fc] Filter_all_success[OF ff]
    show "\<exists>v. results' (ResourceID s) = Some v \<and> Status v = ReleaseStatusSuccess"
      by simp
  next
    fix s f
    assume di: "distinct (map ResourceID defined)" and s: "s \<in> set defined"
      and fc: "find (\<lambda>c. ID c = ResourceID s) services = None"
      and ff: "find (\<lambda>f. Status (f s) \<noteq> ReleaseStatusSuccess) filters = Some f"
    from dfacts(5)[OF di s fc] Filter_first[OF ff]
    show "results' (ResourceID s)
            = Some (if Status (f s) = ReleaseStatusIgnored then f s else notInClusterResult)"
      by simp
  next
    fix s
    assume di: "distinct (map ResourceID defined)" and s: "s \<in> set defined"
      and fc: "find (\<lambda>c. ID c = ResourceID s) services = None"
      and ff: "find (\<lambda>f. Status (f s) \<noteq> ReleaseStatusSuccess) filters = None"
    from dfacts(5)[OF di s fc] Filter_all_success[OF ff] zi
    show "results' (ResourceID s) = Some notInClusterResult"
      by simp
  qed
  show ?thesis
    by (rule exI[of _ defined], rule exI[of _ services], intro conjI) (rule a b e)+
qed

text \<open>
  With a lock on a, an exclusion of b and a filter that fails everything, in this order:
  for b, running, the first filter that does not return SUCCESS is the exclusion. With
  the lock on a alone every filter returns SUCCESS for b, and the entry of b is SUCCESS.
\<close>

theorem SelectServices_filter_precedence_witness:
  "fst (SelectServices Filter ex_rc Map.empty
          [ex_locked ''default:deployment/a'', ex_exclude ''default:deployment/b'', ex_failing] ex_world)
     = Inr []
   \<and> find (\<lambda>f. Status (f ex_b_running) \<noteq> ReleaseStatusSuccess)
        [ex_locked ''default:deployment/a'', ex_exclude ''default:deployment/b'', ex_failing]
        = Some (ex_exclude ''default:deployment/b'')
   \<and> fst (snd (SelectServices Filter ex_rc Map.empty
          [ex_locked ''default:deployment/a'', ex_exclude ''default:deployment/b'', ex_failing] ex_world))
        ''default:deployment/b''
        = Some \<lparr>Status = ReleaseStatusIgnored, Error = ''excluded'', PerContainer = []\<rparr>
   \<and> fst (snd (SelectServices Filter ex_rc Map.empty
          [ex_locked ''default:deployment/a'', ex_exclude ''default:deployment/b'', ex_failing] ex_world))
        ''default:deployment/c'' = Some notInClusterResult
   \<and> fst (SelectServices Filter ex_rc Map.empty [ex_locked ''default:deployment/a''] ex_world)
        = Inr [ex_b_running]
   \<and> find (\<lambda>f. Status (f ex_b_running) \<noteq> ReleaseStatusSuccess)
        [ex_locked ''default:deployment/a''] = None
   \<and> Status (the (fst (snd (SelectServices Filter ex_rc Map.empty
                                [ex_locked ''default:deployment/a''] ex_world))
                     ''default:deployment/b''))
        = ReleaseStatusSuccess"
proof -
  let ?fs = "[ex_locked ''default:deployment/a'', ex_exclude ''default:deployment/b'', ex_failing]"
  let ?X = "SelectServices Filter ex_rc Map.empty ?fs ex_world"
  have ev: "fst ?X = Inr []"
    by (simp add: run_defs ex_defs status_defs)
  from SelectServices_filter_precedence[OF triple_eq[OF ev]] obtain defined services where
    h1: "fst (FindDefinedServices ex_rc ex_world) = Inr defined" and
    h2: "cluster_SomeControllers ex_rc (map ResourceID defined) = Inr services" and
    h3: "distinct (map ResourceID defined) \<longrightarrow>
              (\<forall>s \<in> set defined.
                  (\<forall>c. find (\<lambda>c. ID c = ResourceID s) services = Some c
                     \<longrightarrow> (\<forall>f. find (\<lambda>f. Status (f (s\<lparr>Controller := c\<rparr>)) \<noteq> ReleaseStatusSuccess) ?fs = Some f
                             \<longrightarrow> fst (snd ?X) (ResourceID s) = Some (f (s\<lparr>Controller := c\<rparr>)))
                       \<and> (find (\<lambda>f. Status (f (s\<lparr>Controller := c\<rparr>)) \<noteq> ReleaseStatusSuccess) ?fs = None
                             \<longrightarrow> (\<exists>v. fst (snd ?X) (ResourceID s) = Some v \<and> Status v = ReleaseStatusSuccess)))
                \<and> (find (\<lambda>c. ID c = ResourceID s) services = None
                     \<longrightarrow> (\<forall>f. find (\<lambda>f. Status (f s) \<noteq> ReleaseStatusSuccess) ?fs = Some f
                             \<longrightarrow> fst (snd ?X) (ResourceID s)
                                   = Some (if Status (f s) = ReleaseStatusIgnored then f s
                                           else notInClusterResult))
                       \<and> (find (\<lambda>f. Status (f s) \<noteq> ReleaseStatusSuccess) ?fs = None
                             \<longrightarrow> fst (snd ?X) (ResourceID s) = Some notInClusterResult)))"
    by (elim exE conjE) (rule that)
  from h1 have d: "defined = ex_defined" by (simp add: ex_FindDefinedServices)
  from h2 have s: "services = ex_services" by (simp add: ex_SomeControllers)
  have fb: "find (\<lambda>f. Status (f ex_b_running) \<noteq> ReleaseStatusSuccess) ?fs
              = Some (ex_exclude ''default:deployment/b'')"
    by (simp add: ex_b_running_def ex_locked_def ex_exclude_def status_defs)
  have b: "fst (snd ?X) ''default:deployment/b''
             = Some \<lparr>Status = ReleaseStatusIgnored, Error = ''excluded'', PerContainer = []\<rparr>"
    using h3 unfolding d s by (simp add: ex_defs status_defs)
  have c: "fst (snd ?X) ''default:deployment/c'' = Some notInClusterResult"
    using h3 unfolding d s by (simp add: ex_defs status_defs)
  let ?gs = "[ex_locked ''default:deployment/a'']"
  let ?Y = "SelectServices Filter ex_rc Map.empty ?gs ex_world"
  have ev2: "fst ?Y = Inr [ex_b_running]"
    by (simp add: run_defs ex_defs status_defs)
  from SelectServices_filter_precedence[OF triple_eq[OF ev2]] obtain defined2 services2 where
    k1: "fst (FindDefinedServices ex_rc ex_world) = Inr defined2" and
    k2: "cluster_SomeControllers ex_rc (map ResourceID defined2) = Inr services2" and
    k3: "distinct (map ResourceID defined2) \<longrightarrow>
              (\<forall>s \<in> set defined2.
                  (\<forall>c. find (\<lambda>c. ID c = ResourceID s) services2 = Some c
                     \<longrightarrow> (\<forall>f. find (\<lambda>f. Status (f (s\<lparr>Controller := c\<rparr>)) \<noteq> ReleaseStatusSuccess) ?gs = Some f
                             \<longrightarrow> fst (snd ?Y) (ResourceID s) = Some (f (s\<lparr>Controller := c\<rparr>)))
                       \<and> (find (\<lambda>f. Status (f (s\<lparr>Controller := c\<rparr>)) \<noteq> ReleaseStatusSuccess) ?gs = None
                             \<longrightarrow> (\<exists>v. fst (snd ?Y) (ResourceID s) = Some v \<and> Status v = ReleaseStatusSuccess)))
                \<and> (find (\<lambda>c. ID c = ResourceID s) services2 = None
                     \<longrightarrow> (\<forall>f. find (\<lambda>f. Status (f s) \<noteq> ReleaseStatusSuccess) ?gs = Some f
                             \<longrightarrow> fst (snd ?Y) (ResourceID s)
                                   = Some (if Status (f s) = ReleaseStatusIgnored then f s
                                           else notInClusterResult))
                       \<and> (find (\<lambda>f. Status (f s) \<noteq> ReleaseStatusSuccess) ?gs = None
                             \<longrightarrow> fst (snd ?Y) (ResourceID s) = Some notInClusterResult)))"
    by (elim exE conjE) (rule that)
  from k1 have d2: "defined2 = ex_defined" by (simp add: ex_FindDefinedServices)
  from k2 have s2: "services2 = ex_services" by (simp add: ex_SomeControllers)
  have fb2: "find (\<lambda>f. Status (f ex_b_running) \<noteq> ReleaseStatusSuccess) ?gs = None"
    by (simp add: ex_b_running_def ex_locked_def status_defs)
  have "\<exists>v. fst (snd ?Y) ''default:deployment/b'' = Some v \<and> Status v = ReleaseStatusSuccess"
    using k3 unfolding d2 s2 by (simp add: ex_defs status_defs)
  then have b2: "Status (the (fst (snd ?Y) ''default:deployment/b'')) = ReleaseStatusSuccess"
    by (elim exE conjE) simp
  from ev fb b c ev2 fb2 b2 show ?thesis by (intro conjI)
qed

text \<open>
  As first stated (for every workload examined) the property fails: a is defined and not
  running, the only filter returns FAILED for it, and the Result records SKIPPED "not in
  cluster".
\<close>

theorem SelectServices_filter_precedence_counterexample:
  "fst (FindDefinedServices ex_rc ex_world) = Inr ex_defined
   \<and> ResourceID (ex_defined ! 0) = ''default:deployment/a''
   \<and> ''default:deployment/a'' \<notin> set (map ID ex_services)
   \<and> ex_failing (ex_defined ! 0)
        = \<lparr>Status = ReleaseStatusFailed, Error = ''no image satisfies pattern'', PerContainer = []\<rparr>
   \<and> ReleaseStatusFailed \<noteq> ReleaseStatusSuccess
   \<and> fst (SelectServices Filter ex_rc Map.empty [ex_failing] ex_world) = Inr []
   \<and> fst (snd (SelectServices Filter ex_rc Map.empty [ex_failing] ex_world)) ''default:deployment/a''
        = Some \<lparr>Status = ReleaseStatusSkipped, Error = NotInCluster, PerContainer = []\<rparr>
   \<and> ReleaseStatusSkipped \<noteq> ReleaseStatusFailed"
  by (simp add: run_defs ex_defs status_defs)

text \<open>
  C5, amended. When the enumeration maps some resource id to more than one path,
  \<^verbatim>\<open>FindDefinedServices\<close> returns an error, \<^verbatim>\<open>SelectServices\<close> returns the same error and no
  updates, and the Result is left as it was: the whole release fails. The error is
  decided by the first resource, in the order of the visit, that has a number of paths
  other than one or a manifest that cannot be read: it is the "multiple resource files
  found" error of that resource in the first case, the error of that read in the
  second. Every resource visited before it has one path and a manifest that is read.
\<close>

theorem FindDefinedServices_multiple_files:
  assumes "manifests_FindDefinedServices rc (repo_Dir rc) = Inr services"
      and "(rid, paths) \<in> set services" and "1 < length paths"
  shows "\<exists>i e. i < length services
           \<and> fst (FindDefinedServices rc w) = Inl e
           \<and> fst (SelectServices flt rc results filters w) = Inl e
           \<and> fst (snd (SelectServices flt rc results filters w)) = results
           \<and> (\<forall>j < i. \<exists>p. snd (services ! j) = [p] \<and> files w p \<noteq> None)
           \<and> ((length (snd (services ! i)) \<noteq> 1
                  \<and> e = MultipleResourceFiles (fst (services ! i)) (snd (services ! i)))
              \<or> (\<exists>p. snd (services ! i) = [p] \<and> files w p = None
                  \<and> fst (ioutil_ReadFile p w) = Inl e))"
proof -
  let ?w3 = "emit (EvFindDefinedServices (repo_Dir rc)) (emit EvManifestDir (emit EvRLock w))"
  from assms(3) have ne: "length paths \<noteq> 1" by simp
  have same: "\<And>q. files ?w3 q = files w q"
    "\<And>q. fst (ioutil_ReadFile q ?w3) = fst (ioutil_ReadFile q w)"
    by (simp_all add: emit_def ioutil_ReadFile_def split: option.split)
  from readDefined_bad[OF assms(2) ne, of "[]" ?w3] obtain i e where
    i: "i < length services" and
    e: "fst (readDefined services [] ?w3) = Inl e" and
    before: "\<forall>j < i. \<exists>p. snd (services ! j) = [p] \<and> files w p \<noteq> None" and
    alt: "(length (snd (services ! i)) \<noteq> 1
               \<and> e = MultipleResourceFiles (fst (services ! i)) (snd (services ! i)))
           \<or> (\<exists>p. snd (services ! i) = [p] \<and> files w p = None
               \<and> fst (ioutil_ReadFile p w) = Inl e)"
    unfolding same by blast
  have fds: "fst (FindDefinedServices rc w) = Inl e"
    using e by (cases "readDefined services [] ?w3")
      (simp add: FindDefinedServices_def repo_ManifestDir_def assms(1))
  then obtain w1 where fds1: "FindDefinedServices rc w = (Inl e, w1)"
    by (cases "FindDefinedServices rc w") simp
  have sel: "SelectServices flt rc results filters w = (Inl e, results, w1)"
    by (simp add: SelectServices_def fds1)
  show ?thesis
    apply (rule exI[of _ i], rule exI[of _ e])
    apply (intro conjI)
    subgoal by (rule i)
    subgoal by (rule fds)
    subgoal using sel by simp
    subgoal using sel by simp
    subgoal by (rule before)
    subgoal by (rule alt)
    done
qed

text \<open>Two manifests for b, every file readable: the error names b and its paths.\<close>

theorem FindDefinedServices_multiple_files_witness:
  "manifests_FindDefinedServices ex_rc_multi (repo_Dir ex_rc_multi)
     = Inr [(''default:deployment/a'', [''a.yaml'']),
            (''default:deployment/b'', [''b.yaml'', ''b-copy.yaml''])]
   \<and> 1 < length [''b.yaml'', ''b-copy.yaml'']
   \<and> fst (FindDefinedServices ex_rc_multi ex_world)
        = Inl (MultipleResourceFiles ''default:deployment/b'' [''b.yaml'', ''b-copy.yaml''])
   \<and> fst (SelectServices Filter ex_rc_multi Map.empty [] ex_world)
        = Inl (MultipleResourceFiles ''default:deployment/b'' [''b.yaml'', ''b-copy.yaml''])
   \<and> fst (snd (SelectServices Filter ex_rc_multi Map.empty [] ex_world)) = Map.empty"
proof -
  let ?services = "[(''default:deployment/a'', [''a.yaml'']),
                    (''default:deployment/b'', [''b.yaml'', ''b-copy.yaml''])]"
  have m: "manifests_FindDefinedServices ex_rc_multi (repo_Dir ex_rc_multi) = Inr ?services"
    by (simp add: ex_rc_multi_def)
  have i: "(''default:deployment/b'', [''b.yaml'', ''b-copy.yaml'']) \<in> set ?services" by simp
  have l: "1 < length [''b.yaml'', ''b-copy.yaml'']" by simp
  have ev: "fst (FindDefinedServices ex_rc_multi ex_world)
        = Inl (MultipleResourceFiles ''default:deployment/b'' [''b.yaml'', ''b-copy.yaml''])"
    by (simp add: ex_rc_multi_def run_defs ex_defs status_defs)
  from FindDefinedServices_multiple_files[OF m i l, of ex_world Filter Map.empty "[]"] ev
  have "fst (SelectServices Filter ex_rc_multi Map.empty [] ex_world)
        = Inl (MultipleResourceFiles ''default:deployment/b'' [''b.yaml'', ''b-copy.yaml''])
      \<and> fst (snd (SelectServices Filter ex_rc_multi Map.empty [] ex_world)) = Map.empty"
    by (elim exE conjE) simp
  with m l ev show ?thesis by simp
qed

text \<open>
  As first stated (the error is always "multiple resource files found") the property
  fails: a is visited before b and its manifest cannot be read, and the error returned
  is that of the read.
\<close>

theorem FindDefinedServices_multiple_files_counterexample:
  "manifests_FindDefinedServices ex_rc_multi (repo_Dir ex_rc_multi)
     = Inr [(''default:deployment/a'', [''a.yaml'']),
            (''default:deployment/b'', [''b.yaml'', ''b-copy.yaml''])]
   \<and> 1 < length [''b.yaml'', ''b-copy.yaml'']
   \<and> fst (FindDefinedServices ex_rc_multi ex_world_gone)
        = Inl (Failure ''open a.yaml: no such file or directory'')
   \<and> fst (SelectServices Filter ex_rc_multi Map.empty [] ex_world_gone)
        = Inl (Failure ''open a.yaml: no such file or directory'')"
  by (simp add: ex_rc_multi_def ex_world_gone_def run_defs ex_defs status_defs)

text \<open>
  C6. Lock discipline. \<^verbatim>\<open>FindDefinedServices\<close> and \<^verbatim>\<open>ServicesWithPolicies\<close> take the read
  lock first and release it last, and every read of the checkout in between happens
  with it held; \<^verbatim>\<open>WriteUpdates\<close> takes the write lock first and releases it last, and
  every stat and write in between happens with it held. This holds on every path,
  the early returns on an error included. The log of a call extends the log before it.
\<close>

theorem lock_discipline:
  "(take (length (trace w)) (trace (snd (FindDefinedServices rc w))) = trace w
     \<and> disciplined 0 False (added w (snd (FindDefinedServices rc w)))
     \<and> hd (added w (snd (FindDefinedServices rc w))) = EvRLock
     \<and> last (added w (snd (FindDefinedServices rc w))) = EvRUnlock)
   \<and> (take (length (trace w)) (trace (snd (ServicesWithPolicies rc w))) = trace w
     \<and> disciplined 0 False (added w (snd (ServicesWithPolicies rc w)))
     \<and> hd (added w (snd (ServicesWithPolicies rc w))) = EvRLock
     \<and> last (added w (snd (ServicesWithPolicies rc w))) = EvRUnlock)
   \<and> (take (length (trace w)) (trace (snd (WriteUpdates updates w))) = trace w
     \<and> disciplined 0 False (added w (snd (WriteUpdates updates w)))
     \<and> hd (added w (snd (WriteUpdates updates w))) = EvLock
     \<and> last (added w (snd (WriteUpdates updates w))) = EvUnlock)"
proof (intro conjI)
  let ?dir = "repo_Dir rc"
  let ?w3 = "emit (EvFindDefinedServices ?dir) (emit EvManifestDir (emit EvRLock w))"
  have "\<exists>evs. trace (snd (FindDefinedServices rc w))
                = trace w @ [EvRLock, EvManifestDir, EvFindDefinedServices ?dir] @ evs @ [EvRUnlock]
              \<and> (\<forall>e \<in> set evs. isReadEvent e)"
  proof (cases "manifests_FindDefinedServices rc ?dir")
    case (Inl err)
    then show ?thesis
      by (intro exI[of _ "[]"]) (simp add: FindDefinedServices_def repo_ManifestDir_def emit_def)
  next
    case (Inr services)
    from readDefined_trace[of services "[]" ?w3] obtain evs where
      evs: "trace (snd (readDefined services [] ?w3)) = trace ?w3 @ evs" "\<forall>e \<in> set evs. isReadEvent e"
      by blast
    have "snd (FindDefinedServices rc w) = emit EvRUnlock (snd (readDefined services [] ?w3))"
      by (simp add: FindDefinedServices_def repo_ManifestDir_def Inr split: prod.split)
    with evs show ?thesis
      by (intro exI[of _ evs]) (simp add: emit_def)
  qed
  then obtain evs where
    tr: "trace (snd (FindDefinedServices rc w))
           = trace w @ [EvRLock, EvManifestDir, EvFindDefinedServices ?dir] @ evs @ [EvRUnlock]"
    and rd: "\<forall>e \<in> set evs. isReadEvent e" by blast
  have ad: "added w (snd (FindDefinedServices rc w))
              = [EvRLock, EvManifestDir, EvFindDefinedServices ?dir] @ evs @ [EvRUnlock]"
    by (simp add: added_def tr)
  show "take (length (trace w)) (trace (snd (FindDefinedServices rc w))) = trace w"
    by (simp add: tr)
  show "disciplined 0 False (added w (snd (FindDefinedServices rc w)))"
    unfolding ad using disciplined_reads[OF rd, of "Suc 0" False "[EvRUnlock]"] by simp
  show "hd (added w (snd (FindDefinedServices rc w))) = EvRLock"
    by (simp add: ad)
  show "last (added w (snd (FindDefinedServices rc w))) = EvRUnlock"
    by (simp add: ad)
next
  have tr: "trace (snd (ServicesWithPolicies rc w))
              = trace w @ [EvRLock, EvManifestDir, EvServicesWithPolicies (repo_Dir rc), EvRUnlock]"
    by (simp add: ServicesWithPolicies_def repo_ManifestDir_def emit_def)
  show "take (length (trace w)) (trace (snd (ServicesWithPolicies rc w))) = trace w"
    by (simp add: tr)
  show "disciplined 0 False (added w (snd (ServicesWithPolicies rc w)))"
    by (simp add: added_def tr)
  show "hd (added w (snd (ServicesWithPolicies rc w))) = EvRLock"
    by (simp add: added_def tr)
  show "last (added w (snd (ServicesWithPolicies rc w))) = EvRUnlock"
    by (simp add: added_def tr)
next
  from writeEach_trace[of updates "emit EvLock w"] obtain evs where
    evs: "trace (snd (writeEach updates (emit EvLock w))) = trace (emit EvLock w) @ evs"
    and wr: "\<forall>e \<in> set evs. isWriteEvent e" by blast
  have "snd (WriteUpdates updates w) = emit EvUnlock (snd (writeEach updates (emit EvLock w)))"
    by (simp add: WriteUpdates_def split: prod.split)
  with evs have tr: "trace (snd (WriteUpdates updates w)) = trace w @ [EvLock] @ evs @ [EvUnlock]"
    by (simp add: emit_def)
  have ad: "added w (snd (WriteUpdates updates w)) = [EvLock] @ evs @ [EvUnlock]"
    by (simp add: added_def tr)
  show "take (length (trace w)) (trace (snd (WriteUpdates updates w))) = trace w"
    by (simp add: tr)
  show "disciplined 0 False (added w (snd (WriteUpdates updates w)))"
    unfolding ad using disciplined_writes[OF wr, of 0 "[EvUnlock]"] by simp
  show "hd (added w (snd (WriteUpdates updates w))) = EvLock"
    by (simp add: ad)
  show "last (added w (snd (WriteUpdates updates w))) = EvUnlock"
    by (simp add: ad)
qed

text \<open>The log of \<^verbatim>\<open>FindDefinedServices\<close> on the small repository.\<close>

theorem lock_discipline_witness:
  "added ex_world (snd (FindDefinedServices ex_rc ex_world))
     = [EvRLock, EvManifestDir, EvFindDefinedServices ''/repo'',
        EvReadFile ''a.yaml'', EvReadFile ''b.yaml'', EvReadFile ''c.yaml'', EvRUnlock]
   \<and> disciplined 0 False (added ex_world (snd (FindDefinedServices ex_rc ex_world)))
   \<and> disciplined 0 False (added ex_world (snd (WriteUpdates ex_updates ex_world)))"
proof -
  have "added ex_world (snd (FindDefinedServices ex_rc ex_world))
     = [EvRLock, EvManifestDir, EvFindDefinedServices ''/repo'',
        EvReadFile ''a.yaml'', EvReadFile ''b.yaml'', EvReadFile ''c.yaml'', EvRUnlock]"
    by (simp add: added_def run_defs ex_defs status_defs)
  with lock_discipline[of ex_world ex_rc ex_updates] show ?thesis by simp
qed

text \<open>
  C7. \<^verbatim>\<open>WriteUpdates\<close> goes through the updates in order and overwrites the file at each
  \<^verbatim>\<open>ManifestPath\<close> with the \<^verbatim>\<open>ManifestBytes\<close>; every file keeps its mode. It stops at the
  first update whose file cannot be stat-ed or cannot be written and returns that error;
  the files of the updates before it stay written, and no other file is touched. With
  \<open>n\<close> the number of updates written: \<open>n\<close> is the length of the list exactly when no
  error is returned.
\<close>

theorem WriteUpdates_behaviour:
  "\<exists>n \<le> length updates.
      files (snd (WriteUpdates updates w)) = fold overwrite (take n updates) (files w)
    \<and> (\<forall>u \<in> set (take n updates). files w (ManifestPath u) \<noteq> None \<and> ManifestPath u \<notin> denied w)
    \<and> (\<forall>p f. files w p = Some f
          \<longrightarrow> (\<exists>f'. files (snd (WriteUpdates updates w)) p = Some f' \<and> Mode f' = Mode f))
    \<and> (n = length updates \<longrightarrow> fst (WriteUpdates updates w) = None)
    \<and> (n < length updates \<longrightarrow>
          (files w (ManifestPath (updates ! n)) = None \<or> ManifestPath (updates ! n) \<in> denied w)
        \<and> (\<exists>e. fst (WriteUpdates updates w) = Some e
              \<and> (fst (os_Stat (ManifestPath (updates ! n)) (snd (WriteUpdates updates w))) = Inl e
                  \<or> (\<exists>m. fst (os_Stat (ManifestPath (updates ! n)) (snd (WriteUpdates updates w))) = Inr m
                        \<and> fst (ioutil_WriteFile (ManifestPath (updates ! n)) (ManifestBytes (updates ! n)) m
                                 (snd (WriteUpdates updates w))) = Some e))))"
proof -
  let ?w1 = "emit EvLock w"
  let ?r = "writeEach updates ?w1"
  have W: "WriteUpdates updates w = (fst ?r, emit EvUnlock (snd ?r))"
    by (simp add: WriteUpdates_def split: prod.split)
  have fs: "files (snd (WriteUpdates updates w)) = files (snd ?r)"
    and dn: "denied (snd (WriteUpdates updates w)) = denied (snd ?r)"
    and er: "fst (WriteUpdates updates w) = fst ?r"
    unfolding W by (simp_all add: emit_def)
  have st: "\<And>p. fst (os_Stat p (snd (WriteUpdates updates w))) = fst (os_Stat p (snd ?r))"
    by (simp add: os_Stat_def fs split: option.split)
  have wf: "\<And>p bs m. fst (ioutil_WriteFile p bs m (snd (WriteUpdates updates w)))
                   = fst (ioutil_WriteFile p bs m (snd ?r))"
    by (simp add: ioutil_WriteFile_def dn)
  have f1: "files ?w1 = files w" and d1: "denied ?w1 = denied w" by (simp_all add: emit_def)
  from writeEach_prefix[of updates ?w1] obtain n where n: "n \<le> length updates"
    and a: "files (snd ?r) = fold overwrite (take n updates) (files ?w1)"
    and c: "\<forall>u \<in> set (take n updates). files ?w1 (ManifestPath u) \<noteq> None \<and> ManifestPath u \<notin> denied ?w1"
    and d: "n = length updates \<longrightarrow> fst ?r = None"
    and e: "n < length updates \<longrightarrow>
          (files ?w1 (ManifestPath (updates ! n)) = None \<or> ManifestPath (updates ! n) \<in> denied ?w1)
        \<and> (\<exists>e. fst ?r = Some e
              \<and> (fst (os_Stat (ManifestPath (updates ! n)) (snd ?r)) = Inl e
                  \<or> (\<exists>m. fst (os_Stat (ManifestPath (updates ! n)) (snd ?r)) = Inr m
                        \<and> fst (ioutil_WriteFile (ManifestPath (updates ! n)) (ManifestBytes (updates ! n)) m
                                 (snd ?r)) = Some e)))"
    by blast
  have m: "\<forall>p f. files w p = Some f
          \<longrightarrow> (\<exists>f'. files (snd (WriteUpdates updates w)) p = Some f' \<and> Mode f' = Mode f)"
    unfolding fs a f1 using fold_overwrite_mode by blast
  show ?thesis
    apply (rule exI[of _ n])
    apply (intro conjI)
    subgoal by (rule n)
    subgoal unfolding fs a f1 by simp
    subgoal using c unfolding f1 d1 .
    subgoal by (rule m)
    subgoal using d unfolding er .
    subgoal using e unfolding er st wf f1 d1 .
    done
qed

text \<open>
  Three updates, the second to a file that cannot be opened for writing: the first file
  has its new bytes and its old mode, the error is that of the second, the third file is
  untouched.
\<close>

theorem WriteUpdates_behaviour_witness:
  "fst (WriteUpdates ex_updates ex_world) = Some (Failure ''open c.yaml: permission denied'')
   \<and> files (snd (WriteUpdates ex_updates ex_world)) ''a.yaml'' = Some \<lparr>Mode = 420, Data = ''A2''\<rparr>
   \<and> files (snd (WriteUpdates ex_updates ex_world)) ''b.yaml'' = Some \<lparr>Mode = 420, Data = ''B''\<rparr>
   \<and> files (snd (WriteUpdates ex_updates ex_world)) ''c.yaml'' = Some \<lparr>Mode = 384, Data = ''C''\<rparr>"
proof -
  let ?W = "WriteUpdates ex_updates ex_world"
  from WriteUpdates_behaviour[of ex_updates ex_world] obtain n where
    n: "n \<le> length ex_updates" and
    fs: "files (snd ?W) = fold overwrite (take n ex_updates) (files ex_world)" and
    ok: "\<forall>u \<in> set (take n ex_updates). files ex_world (ManifestPath u) \<noteq> None
            \<and> ManifestPath u \<notin> denied ex_world" and
    stop: "n < length ex_updates \<longrightarrow>
             (files ex_world (ManifestPath (ex_updates ! n)) = None
              \<or> ManifestPath (ex_updates ! n) \<in> denied ex_world)"
    by blast
  have len: "length ex_updates = 3" by (simp add: ex_updates_def)
  from n len have "n = 0 \<or> n = 1 \<or> n = 2 \<or> n = 3" by arith
  then have n1: "n = 1"
  proof (elim disjE)
    assume "n = 0"
    with stop show ?thesis by (simp add: ex_updates_def ex_world_def)
  next
    assume "n = 1"
    then show ?thesis .
  next
    assume "n = 2"
    with ok show ?thesis by (simp add: ex_updates_def ex_world_def numeral_2_eq_2)
  next
    assume "n = 3"
    with ok show ?thesis by (simp add: ex_updates_def ex_world_def)
  qed
  have files: "files (snd ?W) = fold overwrite (take 1 ex_updates) (files ex_world)"
    using fs unfolding n1 .
  have err: "fst ?W = Some (Failure ''open c.yaml: permission denied'')"
    by (simp add: WriteUpdates_def ex_updates_def ex_world_def os_Stat_def ioutil_WriteFile_def
                  emit_def zeroController_def)
  show ?thesis
    unfolding files using err
    by (simp add: ex_updates_def ex_world_def overwrite_def zeroController_def)
qed

text \<open>
  C8. Parsing comes before any work. If parsing a service spec, the image spec, the
  release kind or an excluded id fails, the handler answers 400 and the service is left
  as it was: no job is submitted. Whenever the service is called, the form and every
  spec have been parsed with success, and the one call carries the parsed values.
\<close>

theorem UpdateImages_parse_before_work:
  "(((\<exists>s \<in> set (index (Form r) ''service''). isl (update_ParseResourceSpec ps s))
      \<or> isl (update_ParseImageSpec ps (index (Vars r) ''image''))
      \<or> isl (update_ParseReleaseKind ps (index (Vars r) ''kind''))
      \<or> (\<exists>x \<in> set (index (URLQuery r) ''exclude''). isl (flux_ParseResourceID ps x)))
     \<longrightarrow> (\<exists>e. fst (HTTPService_UpdateImages ps r svc) = WriteError 400 e)
       \<and> snd (HTTPService_UpdateImages ps r svc) = svc)
   \<and> (snd (HTTPService_UpdateImages ps r svc) \<noteq> svc
     \<longrightarrow> ParseForm r = None
       \<and> (\<forall>s \<in> set (index (Form r) ''service''). \<not> isl (update_ParseResourceSpec ps s))
       \<and> \<not> isl (update_ParseImageSpec ps (index (Vars r) ''image''))
       \<and> \<not> isl (update_ParseReleaseKind ps (index (Vars r) ''kind''))
       \<and> (\<forall>x \<in> set (index (URLQuery r) ''exclude''). \<not> isl (flux_ParseResourceID ps x))
       \<and> submitted (snd (HTTPService_UpdateImages ps r svc))
           = submitted svc @
             [(\<lparr>ServiceSpecs = map (\<lambda>s. projr (update_ParseResourceSpec ps s)) (index (Form r) ''service''),
                ImageSpec = projr (update_ParseImageSpec ps (index (Vars r) ''image'')),
                Kind = projr (update_ParseReleaseKind ps (index (Vars r) ''kind'')),
                Excludes = map (\<lambda>x. projr (flux_ParseResourceID ps x)) (index (URLQuery r) ''exclude'')\<rparr>,
               \<lparr>User = FormValue r ''user'', Message = FormValue r ''message''\<rparr>)])"
proof (intro conjI impI)
  assume bad: "(\<exists>s \<in> set (index (Form r) ''service''). isl (update_ParseResourceSpec ps s))
      \<or> isl (update_ParseImageSpec ps (index (Vars r) ''image''))
      \<or> isl (update_ParseReleaseKind ps (index (Vars r) ''kind''))
      \<or> (\<exists>x \<in> set (index (URLQuery r) ''exclude''). isl (flux_ParseResourceID ps x))"
  have "(\<exists>e. fst (HTTPService_UpdateImages ps r svc) = WriteError 400 e)
          \<and> snd (HTTPService_UpdateImages ps r svc) = svc"
  proof (cases "ParseForm r")
    case (Some err)
    then show ?thesis by (simp add: HTTPService_UpdateImages_def StatusBadRequest_def)
  next
    case None
    show ?thesis
    proof (cases "parseServiceSpecs ps (index (Form r) ''service'') []")
      case (Inl e1)
      with None show ?thesis by (simp add: HTTPService_UpdateImages_def StatusBadRequest_def)
    next
      case s: (Inr specs)
      from parseServiceSpecs_ok[OF s] have ok1:
        "\<forall>s \<in> set (index (Form r) ''service''). \<not> isl (update_ParseResourceSpec ps s)" by simp
      show ?thesis
      proof (cases "update_ParseImageSpec ps (index (Vars r) ''image'')")
        case (Inl e2)
        with None s show ?thesis by (simp add: HTTPService_UpdateImages_def StatusBadRequest_def)
      next
        case i: (Inr img)
        show ?thesis
        proof (cases "update_ParseReleaseKind ps (index (Vars r) ''kind'')")
          case (Inl e3)
          with None s i show ?thesis by (simp add: HTTPService_UpdateImages_def StatusBadRequest_def)
        next
          case k: (Inr kd)
          show ?thesis
          proof (cases "parseExcludes ps (index (URLQuery r) ''exclude'') []")
            case (Inl e4)
            with None s i k show ?thesis by (simp add: HTTPService_UpdateImages_def StatusBadRequest_def)
          next
            case x: (Inr exs)
            from parseExcludes_ok[OF x] have ok4:
              "\<forall>x \<in> set (index (URLQuery r) ''exclude''). \<not> isl (flux_ParseResourceID ps x)" by simp
            from bad ok1 ok4 i k show ?thesis by simp
          qed
        qed
      qed
    qed
  qed
  then show "\<exists>e. fst (HTTPService_UpdateImages ps r svc) = WriteError 400 e"
    and "snd (HTTPService_UpdateImages ps r svc) = svc" by simp_all
next
  assume ch: "snd (HTTPService_UpdateImages ps r svc) \<noteq> svc"
  have pf: "ParseForm r = None"
    using ch by (cases "ParseForm r") (simp_all add: HTTPService_UpdateImages_def)
  obtain specs where s: "parseServiceSpecs ps (index (Form r) ''service'') [] = Inr specs"
    using ch pf by (cases "parseServiceSpecs ps (index (Form r) ''service'') []")
      (simp_all add: HTTPService_UpdateImages_def)
  obtain img where i: "update_ParseImageSpec ps (index (Vars r) ''image'') = Inr img"
    using ch pf s by (cases "update_ParseImageSpec ps (index (Vars r) ''image'')")
      (simp_all add: HTTPService_UpdateImages_def)
  obtain kd where k: "update_ParseReleaseKind ps (index (Vars r) ''kind'') = Inr kd"
    using ch pf s i by (cases "update_ParseReleaseKind ps (index (Vars r) ''kind'')")
      (simp_all add: HTTPService_UpdateImages_def)
  obtain exs where x: "parseExcludes ps (index (URLQuery r) ''exclude'') [] = Inr exs"
    using ch pf s i k by (cases "parseExcludes ps (index (URLQuery r) ''exclude'') []")
      (simp_all add: HTTPService_UpdateImages_def)
  note ok1 = parseServiceSpecs_ok[OF s] and ok4 = parseExcludes_ok[OF x]
  show "ParseForm r = None" by (rule pf)
  show "\<forall>s \<in> set (index (Form r) ''service''). \<not> isl (update_ParseResourceSpec ps s)"
    using ok1 by simp
  show "\<not> isl (update_ParseImageSpec ps (index (Vars r) ''image''))" using i by simp
  show "\<not> isl (update_ParseReleaseKind ps (index (Vars r) ''kind''))" using k by simp
  show "\<forall>x \<in> set (index (URLQuery r) ''exclude''). \<not> isl (flux_ParseResourceID ps x)"
    using ok4 by simp
  show "submitted (snd (HTTPService_UpdateImages ps r svc))
           = submitted svc @
             [(\<lparr>ServiceSpecs = map (\<lambda>s. projr (update_ParseResourceSpec ps s)) (index (Form r) ''service''),
                ImageSpec = projr (update_ParseImageSpec ps (index (Vars r) ''image'')),
                Kind = projr (update_ParseReleaseKind ps (index (Vars r) ''kind'')),
                Excludes = map (\<lambda>x. projr (flux_ParseResourceID ps x)) (index (URLQuery r) ''exclude'')\<rparr>,
               \<lparr>User = FormValue r ''user'', Message = FormValue r ''message''\<rparr>)]"
    using ok1 ok4
    by (simp add: HTTPService_UpdateImages_def pf s i k x service_UpdateImages_def split: sum.split)
qed

text \<open>A request with the release kind "dry-run" is refused; the well-formed one submits one job.\<close>

theorem UpdateImages_parse_before_work_witness:
  "isl (update_ParseReleaseKind ex_parsers (index (Vars (ex_request\<lparr>Vars := (Vars ex_request)(''kind'' \<mapsto> ''dry-run'')\<rparr>)) ''kind''))
   \<and> fst (HTTPService_UpdateImages ex_parsers
            (ex_request\<lparr>Vars := (Vars ex_request)(''kind'' \<mapsto> ''dry-run'')\<rparr>) ex_service)
        = WriteError 400 (Wrapf (Failure ''invalid release kind'') ''parsing release kind %q'' [''dry-run''])
   \<and> snd (HTTPService_UpdateImages ex_parsers
            (ex_request\<lparr>Vars := (Vars ex_request)(''kind'' \<mapsto> ''dry-run'')\<rparr>) ex_service)
        = ex_service
   \<and> fst (HTTPService_UpdateImages ex_parsers ex_request ex_service) = JSONResponse ''job-1''
   \<and> snd (HTTPService_UpdateImages ex_parsers ex_request ex_service) \<noteq> ex_service
   \<and> submitted (snd (HTTPService_UpdateImages ex_parsers ex_request ex_service))
        = [(\<lparr>ServiceSpecs = [''<all>''], ImageSpec = ''<all latest>'', Kind = ''execute'',
             Excludes = [''default:deployment/test'']\<rparr>,
            \<lparr>User = ''alice'', Message = []\<rparr>)]"
proof -
  let ?bad = "ex_request\<lparr>Vars := (Vars ex_request)(''kind'' \<mapsto> ''dry-run'')\<rparr>"
  have b: "isl (update_ParseReleaseKind ex_parsers (index (Vars ?bad) ''kind''))"
    by (simp add: ex_parsers_def ex_request_def index_def)
  have r1: "fst (HTTPService_UpdateImages ex_parsers ?bad ex_service)
        = WriteError 400 (Wrapf (Failure ''invalid release kind'') ''parsing release kind %q'' [''dry-run''])"
    by (simp add: HTTPService_UpdateImages_def ex_parsers_def ex_request_def ex_service_def
                  index_def StatusBadRequest_def)
  from UpdateImages_parse_before_work[of ?bad ex_parsers ex_service] b
  have s1: "snd (HTTPService_UpdateImages ex_parsers ?bad ex_service) = ex_service" by blast
  have r2: "fst (HTTPService_UpdateImages ex_parsers ex_request ex_service) = JSONResponse ''job-1''"
    by (simp add: HTTPService_UpdateImages_def ex_parsers_def ex_request_def ex_service_def
                  index_def service_UpdateImages_def FormValue_def)
  have c2: "snd (HTTPService_UpdateImages ex_parsers ex_request ex_service) \<noteq> ex_service"
    by (simp add: HTTPService_UpdateImages_def ex_parsers_def ex_request_def ex_service_def
                  index_def service_UpdateImages_def FormValue_def)
  from UpdateImages_parse_before_work[of ex_request ex_parsers ex_service] c2
  have "submitted (snd (HTTPService_UpdateImages ex_parsers ex_request ex_service))
           = submitted ex_service @
             [(\<lparr>ServiceSpecs = map (\<lambda>s. projr (update_ParseResourceSpec ex_parsers s)) (index (Form ex_request) ''service''),
                ImageSpec = projr (update_ParseImageSpec ex_parsers (index (Vars ex_request) ''image'')),
                Kind = projr (update_ParseReleaseKind ex_parsers (index (Vars ex_request) ''kind'')),
                Excludes = map (\<lambda>x. projr (flux_ParseResourceID ex_parsers x)) (index (URLQuery ex_request) ''exclude'')\<rparr>,
               \<lparr>User = FormValue ex_request ''user'', Message = FormValue ex_request ''message''\<rparr>)]"
    by blast
  then have s2: "submitted (snd (HTTPService_UpdateImages ex_parsers ex_request ex_service))
        = [(\<lparr>ServiceSpecs = [''<all>''], ImageSpec = ''<all latest>'', Kind = ''execute'',
             Excludes = [''default:deployment/test'']\<rparr>,
            \<lparr>User = ''alice'', Message = []\<rparr>)]"
    by (simp add: ex_parsers_def ex_request_def ex_service_def index_def FormValue_def)
  from b r1 s1 r2 c2 s2 show ?thesis by (intro conjI)
qed

text \<open>
  C9. The filters run on the workloads that are defined and not running, too (lines 111
  to 113, on the update without a snapshot). If their verdict is IGNORED it stays in the
  Result; any other verdict is replaced by SKIPPED with the reason "not in cluster".
\<close>

theorem SelectServices_missing_verdict:
  assumes "SelectServices flt rc results filters w = (Inr updates, results', w')"
  shows "\<exists>defined services.
           fst (FindDefinedServices rc w) = Inr defined
         \<and> cluster_SomeControllers rc (map ResourceID defined) = Inr services
         \<and> (distinct (map ResourceID defined) \<longrightarrow>
              (\<forall>s \<in> set defined.
                  find (\<lambda>c. ID c = ResourceID s) services = None
                  \<longrightarrow> (Status (flt s filters) = ReleaseStatusIgnored
                          \<longrightarrow> results' (ResourceID s) = Some (flt s filters))
                    \<and> (Status (flt s filters) \<noteq> ReleaseStatusIgnored
                          \<longrightarrow> results' (ResourceID s) = Some notInClusterResult)))"
proof -
  from SelectServices_succeeds[OF assms] obtain defined services where
    a: "fst (FindDefinedServices rc w) = Inr defined" and
    b: "cluster_SomeControllers rc (map ResourceID defined) = Inr services"
    by blast
  note dfacts = SelectServices_defined_facts[OF assms a b]
  have e: "distinct (map ResourceID defined) \<longrightarrow>
              (\<forall>s \<in> set defined.
                  find (\<lambda>c. ID c = ResourceID s) services = None
                  \<longrightarrow> (Status (flt s filters) = ReleaseStatusIgnored
                          \<longrightarrow> results' (ResourceID s) = Some (flt s filters))
                    \<and> (Status (flt s filters) \<noteq> ReleaseStatusIgnored
                          \<longrightarrow> results' (ResourceID s) = Some notInClusterResult))"
  proof (intro impI ballI)
    fix s
    assume "distinct (map ResourceID defined)" "s \<in> set defined"
      "find (\<lambda>c. ID c = ResourceID s) services = None"
    from dfacts(5)[OF this]
    show "(Status (flt s filters) = ReleaseStatusIgnored
                          \<longrightarrow> results' (ResourceID s) = Some (flt s filters))
                    \<and> (Status (flt s filters) \<noteq> ReleaseStatusIgnored
                          \<longrightarrow> results' (ResourceID s) = Some notInClusterResult)"
      by simp
  qed
  show ?thesis
    by (rule exI[of _ defined], rule exI[of _ services], intro conjI) (rule a b e)+
qed

text \<open>
  a is locked and c is excluded, neither is running: the SKIPPED "locked" of a is replaced,
  the IGNORED of c stays.
\<close>

theorem SelectServices_missing_verdict_witness:
  "fst (SelectServices Filter ex_rc Map.empty
          [ex_exclude ''default:deployment/c'', ex_locked ''default:deployment/a''] ex_world)
     = Inr [ex_b_running]
   \<and> Filter (ex_defined ! 0) [ex_exclude ''default:deployment/c'', ex_locked ''default:deployment/a'']
        = \<lparr>Status = ReleaseStatusSkipped, Error = ''locked'', PerContainer = []\<rparr>
   \<and> fst (snd (SelectServices Filter ex_rc Map.empty
          [ex_exclude ''default:deployment/c'', ex_locked ''default:deployment/a''] ex_world))
        ''default:deployment/a'' = Some notInClusterResult
   \<and> fst (snd (SelectServices Filter ex_rc Map.empty
          [ex_exclude ''default:deployment/c'', ex_locked ''default:deployment/a''] ex_world))
        ''default:deployment/c''
        = Some \<lparr>Status = ReleaseStatusIgnored, Error = ''excluded'', PerContainer = []\<rparr>"
proof -
  let ?fs = "[ex_exclude ''default:deployment/c'', ex_locked ''default:deployment/a'']"
  let ?X = "SelectServices Filter ex_rc Map.empty ?fs ex_world"
  have ev: "fst ?X = Inr [ex_b_running]"
    by (simp add: run_defs ex_defs status_defs)
  from SelectServices_missing_verdict[OF triple_eq[OF ev]] obtain defined services where
    h1: "fst (FindDefinedServices ex_rc ex_world) = Inr defined" and
    h2: "cluster_SomeControllers ex_rc (map ResourceID defined) = Inr services" and
    h3: "distinct (map ResourceID defined) \<longrightarrow>
              (\<forall>s \<in> set defined.
                  find (\<lambda>c. ID c = ResourceID s) services = None
                  \<longrightarrow> (Status (Filter s ?fs) = ReleaseStatusIgnored
                          \<longrightarrow> fst (snd ?X) (ResourceID s) = Some (Filter s ?fs))
                    \<and> (Status (Filter s ?fs) \<noteq> ReleaseStatusIgnored
                          \<longrightarrow> fst (snd ?X) (ResourceID s) = Some notInClusterResult))"
    by (elim exE conjE) (rule that)
  from h1 have d: "defined = ex_defined" by (simp add: ex_FindDefinedServices)
  from h2 have s: "services = ex_services" by (simp add: ex_SomeControllers)
  have va: "Filter (ex_defined ! 0) ?fs
              = \<lparr>Status = ReleaseStatusSkipped, Error = ''locked'', PerContainer = []\<rparr>"
    by (simp add: ex_defs status_defs)
  have a: "fst (snd ?X) ''default:deployment/a'' = Some notInClusterResult"
    using h3 unfolding d s by (simp add: ex_defs status_defs)
  have c: "fst (snd ?X) ''default:deployment/c''
             = Some \<lparr>Status = ReleaseStatusIgnored, Error = ''excluded'', PerContainer = []\<rparr>"
    using h3 unfolding d s by (simp add: ex_defs status_defs)
  from ev va a c show ?thesis by simp
qed

text \<open>
  The test of line 104, whatever the filters answer: a workload that is defined and
  running is among the updates returned exactly when the status of its verdict is SUCCESS
  or the empty string, and the verdict is its entry in the Result.
\<close>

lemma SelectServices_returned_iff_passes:
  assumes "SelectServices flt rc results filters w = (Inr updates, results', w')"
  shows "\<exists>defined services.
           fst (FindDefinedServices rc w) = Inr defined
         \<and> cluster_SomeControllers rc (map ResourceID defined) = Inr services
         \<and> (distinct (map ResourceID defined) \<longrightarrow>
              (\<forall>s \<in> set defined. \<forall>c. find (\<lambda>c. ID c = ResourceID s) services = Some c
                  \<longrightarrow> ((s\<lparr>Controller := c\<rparr> \<in> set updates)
                         = (Status (flt (s\<lparr>Controller := c\<rparr>) filters) = ReleaseStatusSuccess
                            \<or> Status (flt (s\<lparr>Controller := c\<rparr>) filters) = []))
                    \<and> results' (ResourceID s) = Some (flt (s\<lparr>Controller := c\<rparr>) filters)))"
proof -
  from SelectServices_succeeds[OF assms] obtain defined services where
    a: "fst (FindDefinedServices rc w) = Inr defined" and
    b: "cluster_SomeControllers rc (map ResourceID defined) = Inr services"
    by blast
  note facts = SelectServices_facts[OF assms a b]
  note dfacts = SelectServices_defined_facts[OF assms a b]
  have e: "distinct (map ResourceID defined) \<longrightarrow>
              (\<forall>s \<in> set defined. \<forall>c. find (\<lambda>c. ID c = ResourceID s) services = Some c
                  \<longrightarrow> ((s\<lparr>Controller := c\<rparr> \<in> set updates)
                         = (Status (flt (s\<lparr>Controller := c\<rparr>) filters) = ReleaseStatusSuccess
                            \<or> Status (flt (s\<lparr>Controller := c\<rparr>) filters) = []))
                    \<and> results' (ResourceID s) = Some (flt (s\<lparr>Controller := c\<rparr>) filters))"
  proof (intro impI ballI allI)
    fix s c
    assume di: "distinct (map ResourceID defined)" and s: "s \<in> set defined"
      and fc: "find (\<lambda>c. ID c = ResourceID s) services = Some c"
    let ?u = "s\<lparr>Controller := c\<rparr>"
    have iff: "(?u \<in> set updates) = passes (flt ?u filters)"
      using facts(2)[of ?u] dfacts(4)[OF di s fc] by blast
    have res: "results' (ResourceID s) = Some (flt ?u filters)"
      by (rule dfacts(3)[OF di s fc])
    from iff res
    show "((?u \<in> set updates)
             = (Status (flt ?u filters) = ReleaseStatusSuccess \<or> Status (flt ?u filters) = []))
          \<and> results' (ResourceID s) = Some (flt ?u filters)"
      unfolding passes_def by (rule conjI)
  qed
  show ?thesis
    by (rule exI[of _ defined], rule exI[of _ services], intro conjI) (rule a b e)+
qed

end
